theory Spec2Isabelle
  imports Complex_Main "HOL-Library.AList" "HOL-Library.Sublist"
begin

text \<open>
  A model of the lab extraction tool: the normalizer that post-processes the decoded
  model output (\<^verbatim>\<open>normalize_flags_and_context\<close>), the prompt loader
  (\<^verbatim>\<open>read_prompts_from_markdown\<close>), the start of the command line entry point
  (\<^verbatim>\<open>main\<close>) and the upload handling of the HTTP service (\<^verbatim>\<open>ingest_labs\<close> with
  \<^verbatim>\<open>_save_uploads_to_temp\<close> and \<^verbatim>\<open>_cleanup_paths\<close>). Line numbers refer to
  \<^verbatim>\<open>extract_labs.py\<close> and \<^verbatim>\<open>server.py\<close>. An exception is a value: a function that can
  raise returns \<open>pyerror + 'a\<close>, with \<open>Inl\<close> for the exception.
\<close>

section \<open>Decoded JSON values\<close>

text \<open>
  The post-processing step of \<^verbatim>\<open>extract_labs.py\<close> works on the value that
  \<^verbatim>\<open>json.loads\<close> returns: a tree of \<^verbatim>\<open>None\<close>, \<^verbatim>\<open>bool\<close>, \<^verbatim>\<open>int\<close>,
  \<^verbatim>\<open>float\<close>, \<^verbatim>\<open>str\<close>, \<^verbatim>\<open>list\<close> and \<^verbatim>\<open>dict\<close> objects in which no object is
  reachable along two paths. The model is that tree, with value semantics.

  A Python \<^verbatim>\<open>float\<close> is read by the code only through \<^verbatim>\<open><\<close> and \<^verbatim>\<open>>\<close>, which
  Python evaluates on the exact mathematical values of both operands (also between an
  \<^verbatim>\<open>int\<close> and a \<^verbatim>\<open>float\<close>). A float is therefore modelled by the number it denotes:
  a rational, an infinity or NaN (\<^verbatim>\<open>json.loads\<close> accepts \<^verbatim>\<open>Infinity\<close>, \<^verbatim>\<open>-Infinity\<close>
  and \<^verbatim>\<open>NaN\<close>). The rationals are more than the doubles, and \<^verbatim>\<open>-0.0\<close> is not
  told apart from \<^verbatim>\<open>0.0\<close>; the code neither computes nor stores a float.

  A \<^verbatim>\<open>dict\<close> keeps its keys in insertion order, so it is an association list. Its keys
  and the strings the code compares are only tested for equality; they are \<open>string\<close>s
  (the bytes of the UTF-8 encoding).
\<close>

datatype pyfloat = Finite rat | PosInf | NegInf | NaN

datatype json =
    JNull
  | JBool bool
  | JInt int
  | JFloat pyfloat
  | JStr string
  | JList "json list"
  | JDict "(string \<times> json) list"

type_synonym pydict = "(string \<times> json) list"

text \<open>The exceptions the modelled code can raise.\<close>

datatype pyerror =
    TypeError
  | FileNotFoundError
  | NotADirectoryError
  | IsADirectoryError
  | FileExistsError
  | RuntimeError string
  | HTTPException int string

text \<open>\<^verbatim>\<open>d.get(k)\<close>: the value stored under \<open>k\<close>, \<^verbatim>\<open>None\<close> when the key is absent.\<close>

definition py_get :: "pydict \<Rightarrow> string \<Rightarrow> json" where
  "py_get d k = (case map_of d k of None \<Rightarrow> JNull | Some v \<Rightarrow> v)"

text \<open>
  \<^verbatim>\<open>d[k] = v\<close>: an existing key keeps its position and takes the new value, a new key
  is appended.
\<close>

definition py_setitem :: "pydict \<Rightarrow> string \<Rightarrow> json \<Rightarrow> pydict" where
  "py_setitem d k v = AList.update k v d"

text \<open>\<^verbatim>\<open>isinstance(v, dict)\<close>.\<close>

fun is_dict :: "json \<Rightarrow> bool" where
  "is_dict (JDict _) = True"
| "is_dict _ = False"

text \<open>
  \<^verbatim>\<open>isinstance(v, (int, float))\<close>. \<^verbatim>\<open>bool\<close> is a subclass of \<^verbatim>\<open>int\<close> in Python, so
  \<^verbatim>\<open>True\<close> and \<^verbatim>\<open>False\<close> pass the test.
\<close>

fun is_int_or_float :: "json \<Rightarrow> bool" where
  "is_int_or_float (JBool _) = True"
| "is_int_or_float (JInt _) = True"
| "is_int_or_float (JFloat _) = True"
| "is_int_or_float _ = False"

text \<open>
  \<^verbatim>\<open>v in (None, "")\<close>: \<open>v\<close> is \<^verbatim>\<open>None\<close> or equals the empty string. No other decoded
  JSON value compares equal to \<^verbatim>\<open>None\<close> or to \<^verbatim>\<open>""\<close>.
\<close>

definition in_none_or_empty :: "json \<Rightarrow> bool" where
  "in_none_or_empty v \<longleftrightarrow> v = JNull \<or> v = JStr []"

text \<open>
  The number an \<^verbatim>\<open>int\<close>, \<^verbatim>\<open>bool\<close> or \<^verbatim>\<open>float\<close> denotes in a comparison:
  \<^verbatim>\<open>True\<close> is 1 and \<^verbatim>\<open>False\<close> is 0.
\<close>

fun number_of :: "json \<Rightarrow> pyfloat option" where
  "number_of (JBool b) = Some (Finite (if b then 1 else 0))"
| "number_of (JInt i) = Some (Finite (of_int i))"
| "number_of (JFloat f) = Some f"
| "number_of _ = None"

text \<open>The order of numbers: every comparison with NaN is false.\<close>

fun float_lt :: "pyfloat \<Rightarrow> pyfloat \<Rightarrow> bool" where
  "float_lt (Finite a) (Finite b) = (a < b)"
| "float_lt (Finite a) PosInf = True"
| "float_lt NegInf (Finite b) = True"
| "float_lt NegInf PosInf = True"
| "float_lt _ _ = False"

text \<open>
  \<^verbatim>\<open>a < b\<close> and \<^verbatim>\<open>a > b\<close>. Between two numbers the result is a \<^verbatim>\<open>bool\<close>. Every other
  pair of operands is reported as \<^verbatim>\<open>TypeError\<close>; Python also orders two strings and
  two lists, which only makes the model raise more often than the code.
\<close>

definition py_lt :: "json \<Rightarrow> json \<Rightarrow> pyerror + bool" where
  "py_lt a b =
     (case (number_of a, number_of b) of
        (Some x, Some y) \<Rightarrow> Inr (float_lt x y)
      | _ \<Rightarrow> Inl TypeError)"

definition py_gt :: "json \<Rightarrow> json \<Rightarrow> pyerror + bool" where
  "py_gt a b =
     (case (number_of a, number_of b) of
        (Some x, Some y) \<Rightarrow> Inr (float_lt y x)
      | _ \<Rightarrow> Inl TypeError)"

section \<open>The normalizer\<close>

text \<open>
  The body of the \<^verbatim>\<open>for lab in labs\<close> loop of \<^verbatim>\<open>normalize_flags_and_context\<close>
  (lines 156 to 169): the entry after the iteration, or the exception the iteration
  raises.
\<close>

fun normalize_lab :: "json \<Rightarrow> pyerror + json" where
  "normalize_lab (JDict lab) =
     (let flag = py_get lab ''flag'';
          val = py_get lab ''value'';
          ref_low = py_get lab ''ref_low'';
          ref_high = py_get lab ''ref_high'';
          qualifier = py_get lab ''qualifier''
      in if in_none_or_empty flag \<and> is_int_or_float val \<and> is_int_or_float ref_low
            \<and> is_int_or_float ref_high \<and> in_none_or_empty qualifier
         then (case py_lt val ref_low of
                 Inl e \<Rightarrow> Inl e
               | Inr True \<Rightarrow> Inr (JDict (py_setitem lab ''flag'' (JStr ''L'')))
               | Inr False \<Rightarrow>
                   (case py_gt val ref_high of
                      Inl e \<Rightarrow> Inl e
                    | Inr True \<Rightarrow> Inr (JDict (py_setitem lab ''flag'' (JStr ''H'')))
                    | Inr False \<Rightarrow> Inr (JDict (py_setitem lab ''flag'' (JStr ''N'')))))
         else Inr (JDict lab))"
| "normalize_lab v = Inr v"

text \<open>The loop over \<^verbatim>\<open>labs\<close>; an exception in one iteration ends the loop.\<close>

fun normalize_labs :: "json list \<Rightarrow> pyerror + json list" where
  "normalize_labs [] = Inr []"
| "normalize_labs (lab # labs) =
     (case normalize_lab lab of
        Inl e \<Rightarrow> Inl e
      | Inr lab' \<Rightarrow>
          (case normalize_labs labs of
             Inl e \<Rightarrow> Inl e
           | Inr labs' \<Rightarrow> Inr (lab' # labs')))"

text \<open>
  \<^verbatim>\<open>normalize_flags_and_context(data, pdf_names)\<close>, lines 141 to 170. The Python
  mutates \<open>data\<close> and the objects below it in place and returns \<open>data\<close>; the model
  returns the new tree: \<open>data1\<close> and \<open>context1\<close> are \<^verbatim>\<open>data\<close> and \<^verbatim>\<open>context\<close> after
  lines 147 to 150, \<open>context2\<close> and \<open>data2\<close> after line 151, and the loop puts each
  entry it has worked on back at its place in the list under \<^verbatim>\<open>labs\<close>. The \<^verbatim>\<open>case\<close>
  on \<open>labs\<close> is the test \<^verbatim>\<open>isinstance(labs, list)\<close>.
\<close>

definition normalize_flags_and_context :: "pydict \<Rightarrow> string list \<Rightarrow> pyerror + pydict" where
  "normalize_flags_and_context data pdf_names =
     (let context = py_get data ''context'';
          data1 = (if is_dict context then data else py_setitem data ''context'' (JDict []));
          context1 = (case context of JDict c \<Rightarrow> c | _ \<Rightarrow> []);
          context2 = py_setitem context1 ''report_ids'' (JList (map JStr pdf_names));
          data2 = py_setitem data1 ''context'' (JDict context2);
          labs = py_get data2 ''labs''
      in case labs of
           JList ls \<Rightarrow>
             (case normalize_labs ls of
                Inl e \<Rightarrow> Inl e
              | Inr ls' \<Rightarrow> Inr (py_setitem data2 ''labs'' (JList ls')))
         | _ \<Rightarrow> Inr data2)"

section \<open>Text and the prompt loader\<close>

text \<open>
  \<^verbatim>\<open>read_prompts_from_markdown\<close> splits and trims text with \<^verbatim>\<open>str.splitlines\<close> and
  \<^verbatim>\<open>str.strip\<close>, which classify Unicode characters beyond ASCII. The text of the prompt
  file is therefore the list of its code points; \<open>lit\<close> turns an ASCII literal of the
  source into that form.
\<close>

type_synonym pystr = "nat list"

definition lit :: "string \<Rightarrow> pystr" where
  "lit s = map of_char s"

text \<open>
  The line boundaries of \<^verbatim>\<open>str.splitlines\<close>: LF, VT, FF, CR, FS, GS, RS, NEL, LINE
  SEPARATOR and PARAGRAPH SEPARATOR.
\<close>

definition is_linebreak :: "nat \<Rightarrow> bool" where
  "is_linebreak c \<longleftrightarrow> c \<in> {0x0A, 0x0B, 0x0C, 0x0D, 0x1C, 0x1D, 0x1E, 0x85, 0x2028, 0x2029}"

text \<open>The characters \<^verbatim>\<open>str.strip()\<close> removes: those for which \<^verbatim>\<open>str.isspace\<close> holds.\<close>

definition is_space :: "nat \<Rightarrow> bool" where
  "is_space c \<longleftrightarrow>
     (0x09 \<le> c \<and> c \<le> 0x0D) \<or> (0x1C \<le> c \<and> c \<le> 0x1F) \<or> c = 0x20 \<or> c = 0x85 \<or> c = 0xA0
     \<or> c = 0x1680 \<or> (0x2000 \<le> c \<and> c \<le> 0x200A) \<or> c = 0x2028 \<or> c = 0x2029
     \<or> c = 0x202F \<or> c = 0x205F \<or> c = 0x3000"

text \<open>
  \<^verbatim>\<open>s.splitlines()\<close>: the scan collects the characters of the current line in \<open>cur\<close>;
  a line boundary ends the line, CR LF counting as one boundary; the boundary is not
  kept; no empty line follows a boundary that ends the text.
\<close>

fun split_from :: "pystr \<Rightarrow> pystr \<Rightarrow> pystr list" where
  "split_from cur [] = (if cur = [] then [] else [cur])"
| "split_from cur [c] = (if is_linebreak c then [cur] else [cur @ [c]])"
| "split_from cur (c # d # s) =
     (if is_linebreak c
      then cur # (if c = 0x0D \<and> d = 0x0A then split_from [] s else split_from [] (d # s))
      else split_from (cur @ [c]) (d # s))"

definition splitlines :: "pystr \<Rightarrow> pystr list" where
  "splitlines s = split_from [] s"

text \<open>\<^verbatim>\<open>s.strip()\<close>, \<^verbatim>\<open>s.rstrip(chars)\<close> and \<^verbatim>\<open>sep.join(xs)\<close>.\<close>

definition strip :: "pystr \<Rightarrow> pystr" where
  "strip s = rev (dropWhile is_space (rev (dropWhile is_space s)))"

definition rstrip_chars :: "pystr \<Rightarrow> pystr \<Rightarrow> pystr" where
  "rstrip_chars chars s = rev (dropWhile (\<lambda>c. c \<in> set chars) (rev s))"

fun join :: "pystr \<Rightarrow> pystr list \<Rightarrow> pystr" where
  "join sep [] = []"
| "join sep [x] = x"
| "join sep (x # y # ys) = x @ sep @ join sep (y # ys)"

text \<open>
  The slices \<^verbatim>\<open>xs[i:j]\<close> and \<^verbatim>\<open>xs[i:]\<close>: a negative bound counts from the end, and
  each bound is clipped to the list.
\<close>

definition py_slice :: "'a list \<Rightarrow> int \<Rightarrow> int \<Rightarrow> 'a list" where
  "py_slice xs i j =
     (let n = int (length xs);
          lo = (if i < 0 then max (i + n) 0 else min i n);
          hi = (if j < 0 then max (j + n) 0 else min j n)
      in take (nat (hi - lo)) (drop (nat lo) xs))"

definition py_slice_from :: "'a list \<Rightarrow> int \<Rightarrow> 'a list" where
  "py_slice_from xs i =
     (let n = int (length xs);
          lo = (if i < 0 then max (i + n) 0 else min i n)
      in drop (nat lo) xs)"

text \<open>
  \<^verbatim>\<open>find_index(label)\<close>, lines 24 to 28: the index of the first line whose stripped
  content equals the label, or -1. The source function closes over \<^verbatim>\<open>lines\<close>; here it
  is a parameter. \<open>find_index_from\<close> is the \<^verbatim>\<open>for i, ln in enumerate(lines)\<close> loop from
  index \<open>i\<close> on.
\<close>

fun find_index_from :: "nat \<Rightarrow> pystr list \<Rightarrow> pystr \<Rightarrow> int" where
  "find_index_from i [] label = - 1"
| "find_index_from i (line # rest) label =
     (if strip line = label then int i else find_index_from (Suc i) rest label)"

definition find_index :: "pystr list \<Rightarrow> pystr \<Rightarrow> int" where
  "find_index lines label = find_index_from 0 lines label"

text \<open>
  \<^verbatim>\<open>markdown_path.read_text(encoding="utf-8")\<close>: the files that can be read are a
  partial map from the path to the text \<^verbatim>\<open>read_text\<close> returns for it (decoded, and
  with the line ends of the file translated as text mode does), and a path outside it
  raises \<^verbatim>\<open>FileNotFoundError\<close>. Unreadable and undecodable files are not modelled.
\<close>

type_synonym filesystem = "string \<rightharpoonup> pystr"

definition read_text :: "filesystem \<Rightarrow> string \<Rightarrow> pyerror + pystr" where
  "read_text fs path = (case fs path of None \<Rightarrow> Inl FileNotFoundError | Some text \<Rightarrow> Inr text)"

text \<open>\<^verbatim>\<open>read_prompts_from_markdown(markdown_path)\<close>, lines 15 to 39.\<close>

definition read_prompts_from_markdown :: "filesystem \<Rightarrow> string \<Rightarrow> pyerror + (pystr \<times> pystr)" where
  "read_prompts_from_markdown fs markdown_path =
     (case read_text fs markdown_path of
        Inl e \<Rightarrow> Inl e
      | Inr text \<Rightarrow>
          (let lines = map (rstrip_chars [0x0A]) (splitlines text);
               system_idx = find_index lines (lit ''SYSTEM'');
               user_idx = find_index lines (lit ''USER'')
           in if system_idx = - 1 \<or> user_idx = - 1 \<or> user_idx \<le> system_idx
              then Inl (RuntimeError ''Could not locate SYSTEM and USER blocks in ai-prompt.md'')
              else
                (let system_block = strip (join [0x0A] (py_slice lines (system_idx + 1) user_idx));
                     user_block = strip (join [0x0A] (py_slice_from lines (user_idx + 1)))
                 in if system_block = [] \<or> user_block = []
                    then Inl (RuntimeError ''SYSTEM or USER block appears empty in ai-prompt.md'')
                    else Inr (system_block, user_block))))"

section \<open>The command line entry point\<close>

text \<open>
  \<^verbatim>\<open>main(argv)\<close> of \<^verbatim>\<open>extract_labs.py\<close>, lines 173 to 190: the arguments as
  \<^verbatim>\<open>argparse\<close> returns them, the credential as \<^verbatim>\<open>os.getenv\<close> returns it after
  \<^verbatim>\<open>load_dotenv()\<close>, and the readable files with the prompt argument already resolved
  against the working directory. Lines 192 to 257 resolve the inputs, call the vendor
  API and write the output; they are the parameter \<open>rest\<close>, and no line before them
  touches the network.

  A run either returns an exit code, with what it printed to standard error, or ends
  in an exception that \<^verbatim>\<open>main\<close> does not catch.
\<close>

record cli_args =
  arg_files :: "string list"
  arg_output :: string
  arg_model :: string
  arg_prompt :: string
  arg_input_dir :: string
  arg_max_files :: int

record environment =
  openai_api_key :: "string option"
  text_files :: filesystem

datatype outcome = Returned int "string list" | Uncaught pyerror

definition main :: "environment \<Rightarrow> cli_args \<Rightarrow> (pystr \<Rightarrow> pystr \<Rightarrow> outcome) \<Rightarrow> outcome" where
  "main env args rest =
     (if (case openai_api_key env of None \<Rightarrow> True | Some key \<Rightarrow> key = [])
      then Returned 2 [''ERROR: OPENAI_API_KEY is not set (set in environment or in a .env file)'']
      else (case read_prompts_from_markdown (text_files env) (arg_prompt args) of
              Inl e \<Rightarrow> Uncaught e
            | Inr (system_prompt, user_prompt) \<Rightarrow> rest system_prompt user_prompt))"

text \<open>
  \<^verbatim>\<open>raise SystemExit(main(sys.argv[1:]))\<close>, line 261: the process exits with the code
  \<^verbatim>\<open>main\<close> returns. When \<^verbatim>\<open>main\<close> raises, the interpreter prints the traceback to
  standard error and exits with status 1.
\<close>

definition exit_status :: "outcome \<Rightarrow> int" where
  "exit_status out = (case out of Returned code _ \<Rightarrow> code | Uncaught _ \<Rightarrow> 1)"

section \<open>The HTTP service: uploads and their scratch directory\<close>

text \<open>
  \<^verbatim>\<open>server.py\<close> builds its paths with \<^verbatim>\<open>pathlib\<close>. A path is the list of its
  components below the root; every path of the model is absolute, as \<^verbatim>\<open>BASE_DIR\<close> is.
  \<open>joinpath p s\<close> is \<^verbatim>\<open>p / s\<close>: the string is cut at each \<^verbatim>\<open>/\<close>, empty components and
  \<^verbatim>\<open>.\<close> are dropped, \<^verbatim>\<open>..\<close> is kept, and a string that starts with \<^verbatim>\<open>/\<close> replaces \<open>p\<close>
  (\<^verbatim>\<open>pathlib\<close> tells a leading \<^verbatim>\<open>//\<close> from \<^verbatim>\<open>/\<close>; the model does not).
  \<open>path_str\<close> is \<^verbatim>\<open>str(p)\<close>, \<open>parent\<close> and \<open>name\<close> are \<^verbatim>\<open>p.parent\<close> and \<^verbatim>\<open>p.name\<close>.
\<close>

type_synonym path = "string list"

fun split_on :: "char \<Rightarrow> string \<Rightarrow> string \<Rightarrow> string list" where
  "split_on sep cur [] = [cur]"
| "split_on sep cur (c # cs) =
     (if c = sep then cur # split_on sep [] cs else split_on sep (cur @ [c]) cs)"

definition path_parts :: "string \<Rightarrow> path" where
  "path_parts s = filter (\<lambda>p. p \<noteq> [] \<and> p \<noteq> ''.'') (split_on CHR ''/'' [] s)"

definition joinpath :: "path \<Rightarrow> string \<Rightarrow> path" where
  "joinpath p s = (if prefix ''/'' s then path_parts s else p @ path_parts s)"

definition path_str :: "path \<Rightarrow> string" where
  "path_str p = (if p = [] then ''/'' else concat (map (\<lambda>c. CHR ''/'' # c) p))"

definition parent :: "path \<Rightarrow> path" where
  "parent p = butlast p"

definition name :: "path \<Rightarrow> string" where
  "name p = (if p = [] then [] else last p)"

text \<open>
  The disk: the directories other than the root and the regular files that exist,
  each under its path without \<^verbatim>\<open>..\<close>. There are no symbolic links and every
  operation is permitted. The operating system follows a path one component at a
  time: \<open>walk\<close> steps from the directory \<open>cur\<close>, and \<^verbatim>\<open>..\<close> steps to its parent.
\<close>

record disk =
  dirs :: "path list"
  regular :: "path list"

definition is_dir :: "disk \<Rightarrow> path \<Rightarrow> bool" where
  "is_dir d p \<longleftrightarrow> p = [] \<or> p \<in> set (dirs d)"

fun walk :: "disk \<Rightarrow> path \<Rightarrow> path \<Rightarrow> pyerror + path" where
  "walk d cur [] = Inr cur"
| "walk d cur (c # cs) =
     (if is_dir d cur then walk d (if c = ''..'' then butlast cur else cur @ [c]) cs
      else if cur \<in> set (regular d) then Inl NotADirectoryError
      else Inl FileNotFoundError)"

definition locate :: "disk \<Rightarrow> path \<Rightarrow> pyerror + path" where
  "locate d p = walk d [] p"

text \<open>
  \<^verbatim>\<open>p.resolve()\<close>: with no symbolic links, each \<^verbatim>\<open>..\<close> removes the component
  before it (and nothing at the root), whether or not the path exists.
\<close>

definition resolve :: "path \<Rightarrow> path" where
  "resolve p = foldl (\<lambda>acc c. if c = ''..'' then butlast acc else acc @ [c]) [] p"

text \<open>\<^verbatim>\<open>p.exists()\<close>.\<close>

definition path_exists :: "disk \<Rightarrow> path \<Rightarrow> bool" where
  "path_exists d p =
     (case locate d p of Inl _ \<Rightarrow> False | Inr q \<Rightarrow> is_dir d q \<or> q \<in> set (regular d))"

text \<open>
  \<^verbatim>\<open>p.mkdir(parents=True, exist_ok=True)\<close> for a path without \<^verbatim>\<open>..\<close>: the path and
  its missing ancestors become directories. A regular file at a proper ancestor
  raises \<^verbatim>\<open>NotADirectoryError\<close>, a regular file at the path itself
  \<^verbatim>\<open>FileExistsError\<close>.
\<close>

definition mkdir_parents :: "disk \<Rightarrow> path \<Rightarrow> pyerror + disk" where
  "mkdir_parents d p =
     (if list_ex (\<lambda>q. q \<in> set (regular d)) (map (\<lambda>n. take n p) [1..<length p])
      then Inl NotADirectoryError
      else if p \<in> set (regular d) then Inl FileExistsError
      else Inr (d\<lparr>dirs := dirs d @ filter (\<lambda>q. q \<notin> set (dirs d))
                                   (map (\<lambda>n. take n p) [1..<Suc (length p)])\<rparr>))"

text \<open>
  \<^verbatim>\<open>p.open("wb")\<close> followed by the copy of the upload: the file is created in the
  directory the rest of the path names, which must exist.
\<close>

definition open_wb :: "disk \<Rightarrow> path \<Rightarrow> pyerror + disk" where
  "open_wb d p =
     (if p = [] then Inl IsADirectoryError
      else case locate d (butlast p) of
             Inl e \<Rightarrow> Inl e
           | Inr q \<Rightarrow>
               if q \<in> set (regular d) then Inl NotADirectoryError
               else if \<not> is_dir d q then Inl FileNotFoundError
               else if last p = ''..'' then Inl IsADirectoryError
               else if is_dir d (q @ [last p]) then Inl IsADirectoryError
               else Inr (d\<lparr>regular := List.insert (q @ [last p]) (regular d)\<rparr>))"

text \<open>
  \<^verbatim>\<open>shutil.rmtree(p)\<close>: the directory the path names goes, with all below it. When
  the path ends in \<^verbatim>\<open>..\<close>, all below the directory goes, the last step (removing the
  directory under that name) fails, and the directory itself stays. The result is the
  exception raised, if any, and the disk as the call leaves it.
\<close>

definition rmtree :: "disk \<Rightarrow> path \<Rightarrow> (pyerror + unit) \<times> disk" where
  "rmtree d p =
     (case locate d p of
        Inl e \<Rightarrow> (Inl e, d)
      | Inr q \<Rightarrow>
          if q \<in> set (regular d) then (Inl NotADirectoryError, d)
          else if \<not> is_dir d q then (Inl FileNotFoundError, d)
          else if p \<noteq> [] \<and> last p = ''..''
          then (Inl FileNotFoundError,
                d\<lparr>dirs := filter (\<lambda>x. \<not> strict_prefix q x) (dirs d),
                  regular := filter (\<lambda>x. \<not> strict_prefix q x) (regular d)\<rparr>)
          else (Inr (),
                d\<lparr>dirs := filter (\<lambda>x. \<not> prefix q x) (dirs d),
                  regular := filter (\<lambda>x. \<not> prefix q x) (regular d)\<rparr>))"

text \<open>
  An uploaded file: the name the client sent in the multipart header, and the bytes.
\<close>

record upload =
  filename :: string
  content :: "nat list"

text \<open>
  \<^verbatim>\<open>_save_uploads_to_temp(upload_files)\<close>, lines 41 to 50. \<open>uuid\<close> is the text of the
  identifier \<^verbatim>\<open>uuid.uuid4()\<close> draws. \<open>save_each\<close> is the loop of lines 45 to 49. The
  result is the list of saved paths or the exception raised, and the disk as the
  call leaves it.
\<close>

fun save_each :: "path \<Rightarrow> disk \<Rightarrow> path list \<Rightarrow> upload list \<Rightarrow> (pyerror + path list) \<times> disk" where
  "save_each tmp_dir d saved_paths [] = (Inr saved_paths, d)"
| "save_each tmp_dir d saved_paths (uf # ufs) =
     (let dest = joinpath tmp_dir (filename uf)
      in case open_wb d dest of
           Inl e \<Rightarrow> (Inl e, d)
         | Inr d' \<Rightarrow> save_each tmp_dir d' (saved_paths @ [dest]) ufs)"

definition save_uploads_to_temp ::
  "path \<Rightarrow> string \<Rightarrow> disk \<Rightarrow> upload list \<Rightarrow> (pyerror + path list) \<times> disk" where
  "save_uploads_to_temp base_dir uuid d upload_files =
     (let tmp_dir = joinpath (joinpath base_dir ''tmp_uploads'') uuid
      in case mkdir_parents d tmp_dir of
           Inl e \<Rightarrow> (Inl e, d)
         | Inr d' \<Rightarrow> save_each tmp_dir d' [] upload_files)"

text \<open>
  \<^verbatim>\<open>_cleanup_paths(paths)\<close>, lines 53 to 63. The guard of line 60 compares the two
  paths as strings. An exception of \<^verbatim>\<open>rmtree\<close> is swallowed; what it had removed
  before stays removed.
\<close>

definition cleanup_paths :: "path \<Rightarrow> disk \<Rightarrow> path list \<Rightarrow> disk" where
  "cleanup_paths base_dir d paths =
     (case paths of
        [] \<Rightarrow> d
      | p # _ \<Rightarrow>
          if name (parent p) \<noteq> ''tmp_uploads''
          then (if path_exists d (parent p)
                   \<and> prefix (path_str (joinpath base_dir ''tmp_uploads'')) (path_str (parent p))
                then snd (rmtree d (parent p))
                else d)
          else d)"

text \<open>
  \<^verbatim>\<open>ingest_labs\<close>, lines 137 to 185. The environment of a request: \<^verbatim>\<open>BASE_DIR\<close>, whether
  the credential is set, the identifier \<^verbatim>\<open>uuid4\<close> draws, and what line 163 and lines
  164 to 167 find in the sample directory. \<^verbatim>\<open>_process_paths\<close> calls the vendor API; it
  is the parameter \<open>process_paths\<close>, and the file \<^verbatim>\<open>labs.json\<close> it writes in
  \<^verbatim>\<open>BASE_DIR\<close> is left out of the disk. \<open>prompt_path\<close> is the path of lines 153 to
  155: an absolute \<^verbatim>\<open>prompt\<close> as it is, any other joined to \<^verbatim>\<open>BASE_DIR\<close> and
  resolved. \<open>saved_paths\<close> is the variable of line 159 as
  the \<^verbatim>\<open>finally\<close> block reads it: still empty when line 162 raised. The result is the
  response or the exception, and the disk after the \<^verbatim>\<open>finally\<close> block.
\<close>

record server_env =
  base_dir :: path
  api_key_set :: bool
  fresh_uuid :: string
  sample_present :: bool
  sample_paths :: "pyerror + path list"

definition ingest_labs ::
  "server_env \<Rightarrow> (path list \<Rightarrow> string \<Rightarrow> path \<Rightarrow> pyerror + json) \<Rightarrow> disk
     \<Rightarrow> upload list \<Rightarrow> string \<Rightarrow> string \<Rightarrow> bool \<Rightarrow> (pyerror + json) \<times> disk" where
  "ingest_labs env process_paths d files model prompt use_sample =
     (if \<not> api_key_set env then (Inl (HTTPException 500 ''OPENAI_API_KEY is not set''), d)
      else
        let prompt_path = (if prefix ''/'' prompt then path_parts prompt
                           else resolve (joinpath (base_dir env) prompt))
        in if \<not> path_exists d prompt_path
           then (Inl (HTTPException 400 (''Prompt not found: '' @ path_str prompt_path)), d)
           else
             let (saved, d1) =
                   (if files \<noteq> [] then save_uploads_to_temp (base_dir env) (fresh_uuid env) d files
                    else if use_sample \<or> sample_present env then (sample_paths env, d)
                    else (Inl (HTTPException 400
                            ''No files uploaded and no sample inputs available''), d));
                 saved_paths = (case saved of Inl _ \<Rightarrow> [] | Inr ps \<Rightarrow> ps);
                 response =
                   (case saved of
                      Inl e \<Rightarrow> Inl e
                    | Inr ps \<Rightarrow>
                        if ps = [] then Inl (HTTPException 400 ''No supported files found to process'')
                        else process_paths ps model prompt_path);
                 d2 = (if files \<noteq> [] \<and> saved_paths \<noteq> []
                       then cleanup_paths (base_dir env) d1 saved_paths else d1)
             in (response, d2))"

section \<open>Notions used to state the properties\<close>

text \<open>
  A field of a lab entry is missing or empty when the entry has no such key, or holds
  \<^verbatim>\<open>null\<close> (which \<^verbatim>\<open>get\<close> does not tell apart from an absent key), or holds the
  empty string.
\<close>

definition missing_or_empty :: "pydict \<Rightarrow> string \<Rightarrow> bool" where
  "missing_or_empty lab k \<longleftrightarrow>
     map_of lab k = None \<or> map_of lab k = Some JNull \<or> map_of lab k = Some (JStr '''')"

text \<open>
  A field is numeric when it holds a value that passes \<^verbatim>\<open>isinstance(v, (int, float))\<close>;
  \<open>numeric_field\<close> is the number it holds.
\<close>

definition numeric_field :: "pydict \<Rightarrow> string \<Rightarrow> pyfloat option" where
  "numeric_field lab k = (case map_of lab k of None \<Rightarrow> None | Some v \<Rightarrow> number_of v)"

text \<open>The three-way comparison of a value with its reference range.\<close>

definition range_flag :: "pyfloat \<Rightarrow> pyfloat \<Rightarrow> pyfloat \<Rightarrow> string" where
  "range_flag x lo hi = (if float_lt x lo then ''L'' else if float_lt hi x then ''H'' else ''N'')"

text \<open>
  The rational a JSON boolean or finite JSON number stands for, with \<^verbatim>\<open>true\<close> as 1
  and \<^verbatim>\<open>false\<close> as 0.
\<close>

fun bool_or_number :: "json \<Rightarrow> rat option" where
  "bool_or_number (JBool True) = Some 1"
| "bool_or_number (JBool False) = Some 0"
| "bool_or_number (JInt i) = Some (of_int i)"
| "bool_or_number (JFloat (Finite q)) = Some q"
| "bool_or_number _ = None"

subsection \<open>Closed forms of the normalizer\<close>

text \<open>
  The flag the loop infers for an entry, if any; the entry after the loop; and the
  data after lines 147 to 151, with \<^verbatim>\<open>context.report_ids\<close> stamped.
\<close>

definition inferred_flag :: "pydict \<Rightarrow> string option" where
  "inferred_flag lab =
     (if missing_or_empty lab ''flag'' \<and> missing_or_empty lab ''qualifier'' then
        (case (numeric_field lab ''value'', numeric_field lab ''ref_low'', numeric_field lab ''ref_high'') of
           (Some x, Some lo, Some hi) \<Rightarrow> Some (range_flag x lo hi)
         | _ \<Rightarrow> None)
      else None)"

fun expected_entry :: "json \<Rightarrow> json" where
  "expected_entry (JDict lab) =
     (case inferred_flag lab of
        None \<Rightarrow> JDict lab
      | Some f \<Rightarrow> JDict (py_setitem lab ''flag'' (JStr f)))"
| "expected_entry v = v"

definition stamped :: "pydict \<Rightarrow> string list \<Rightarrow> pydict" where
  "stamped data pdf_names =
     py_setitem data ''context''
       (JDict (py_setitem (case py_get data ''context'' of JDict c \<Rightarrow> c | _ \<Rightarrow> [])
          ''report_ids'' (JList (map JStr pdf_names))))"

subsection \<open>Lines, trimming and joining, stated on their own\<close>

text \<open>
  The notions the properties of the prompt loader are stated with are defined here
  without the functions of the model. The lines of a text: a line runs up to the next
  line boundary, CR LF is one boundary, and a boundary at the end of the text opens no
  further line.
\<close>

function text_lines :: "pystr \<Rightarrow> pystr list" where
  "text_lines s =
     (if s = [] then []
      else takeWhile (\<lambda>c. \<not> is_linebreak c) s #
        (case dropWhile (\<lambda>c. \<not> is_linebreak c) s of
           [] \<Rightarrow> []
         | c # r \<Rightarrow> text_lines (if c = 0x0D \<and> take 1 r = [0x0A] then drop 1 r else r)))"
  by pat_completeness auto
termination
proof (relation "measure length")
  show "wf (measure length)" by simp
next
  fix s :: pystr and c r
  assume "dropWhile (\<lambda>c. \<not> is_linebreak c) s = c # r"
  then have "Suc (length r) \<le> length s"
    by (metis length_Cons length_dropWhile_le)
  then show "((if c = 0x0D \<and> take 1 r = [0x0A] then drop 1 r else r), s) \<in> measure length"
    by auto
qed

declare text_lines.simps [simp del]

text \<open>
  A text trimmed: without its leading and its trailing whitespace, counted from the
  two ends. Lines joined: with one line feed between each two.
\<close>

definition trimmed :: "pystr \<Rightarrow> pystr" where
  "trimmed s =
     (let before = length (takeWhile is_space s);
          after = length (takeWhile is_space (rev s))
      in take (length s - before - after) (drop before s))"

definition joined :: "pystr list \<Rightarrow> pystr" where
  "joined ls = (case ls of [] \<Rightarrow> [] | l # rest \<Rightarrow> l @ concat (map (\<lambda>x. 0x0A # x) rest))"

subsection \<open>Markers and blocks of the prompt file\<close>

text \<open>
  The marker of a label is the first line whose trimmed content is the label;
  \<open>first_marker\<close> is its index, and the number of lines when the marker is missing. The
  system text is made of the lines between the two markers, the user text of the
  lines after the USER marker, in both cases joined by line feeds and trimmed.
  \<open>loader_rejects\<close> lists the four conditions of failure.
\<close>

definition marker_missing :: "pystr \<Rightarrow> pystr list \<Rightarrow> bool" where
  "marker_missing label lines \<longleftrightarrow> label \<notin> set (map trimmed lines)"

definition first_marker :: "pystr \<Rightarrow> pystr list \<Rightarrow> nat" where
  "first_marker label lines = length (takeWhile (\<lambda>line. trimmed line \<noteq> label) lines)"

definition system_text :: "pystr \<Rightarrow> pystr" where
  "system_text text =
     (let lines = text_lines text;
          s = first_marker (lit ''SYSTEM'') lines;
          u = first_marker (lit ''USER'') lines
      in trimmed (joined (take (u - Suc s) (drop (Suc s) lines))))"

definition user_text :: "pystr \<Rightarrow> pystr" where
  "user_text text =
     (let lines = text_lines text;
          u = first_marker (lit ''USER'') lines
      in trimmed (joined (drop (Suc u) lines)))"

definition loader_rejects :: "pystr \<Rightarrow> bool" where
  "loader_rejects text \<longleftrightarrow>
     (let lines = text_lines text
      in marker_missing (lit ''SYSTEM'') lines
         \<or> marker_missing (lit ''USER'') lines
         \<or> first_marker (lit ''USER'') lines \<le> first_marker (lit ''SYSTEM'') lines
         \<or> system_text text = []
         \<or> user_text text = [])"

text \<open>
  The contract in the words of the specification: the file contains a line exactly
  equal to \<^verbatim>\<open>SYSTEM\<close>, followed later by a line exactly equal to \<^verbatim>\<open>USER\<close>; the text
  between them, trimmed, is the system prompt and the text after \<^verbatim>\<open>USER\<close>, trimmed, is
  the user prompt; the loader fails if either marker is missing, if they are out of
  order, or if either block is empty.
\<close>

definition exact_system_pos :: "pystr list \<Rightarrow> nat" where
  "exact_system_pos lines = length (takeWhile (\<lambda>line. line \<noteq> lit ''SYSTEM'') lines)"

definition exact_user_pos :: "pystr list \<Rightarrow> nat" where
  "exact_user_pos lines =
     (let s = exact_system_pos lines
      in Suc s + length (takeWhile (\<lambda>line. line \<noteq> lit ''USER'') (drop (Suc s) lines)))"

definition stated_result :: "pystr \<Rightarrow> pystr \<times> pystr" where
  "stated_result text =
     (let lines = text_lines text;
          s = exact_system_pos lines;
          u = exact_user_pos lines
      in (trimmed (joined (take (u - Suc s) (drop (Suc s) lines))),
          trimmed (joined (drop (Suc u) lines))))"

definition stated_rejected :: "pystr \<Rightarrow> bool" where
  "stated_rejected text \<longleftrightarrow>
     (let lines = text_lines text
      in lit ''SYSTEM'' \<notin> set lines
         \<or> lit ''USER'' \<notin> set lines
         \<or> lit ''USER'' \<notin> set (drop (Suc (exact_system_pos lines)) lines)
         \<or> fst (stated_result text) = []
         \<or> snd (stated_result text) = [])"

subsection \<open>Closed form of the marker search\<close>

text \<open>
  What \<^verbatim>\<open>find_index\<close> computes, in terms of the model's \<open>strip\<close>: whether a line passes
  the test of line 26, whether any line does, and the index of the first that does.
\<close>

definition is_marker :: "pystr \<Rightarrow> pystr \<Rightarrow> bool" where
  "is_marker label line \<longleftrightarrow> strip line = label"

definition has_marker :: "pystr \<Rightarrow> pystr list \<Rightarrow> bool" where
  "has_marker label lines \<longleftrightarrow> list_ex (is_marker label) lines"

definition marker_pos :: "pystr \<Rightarrow> pystr list \<Rightarrow> nat" where
  "marker_pos label lines = length (takeWhile (\<lambda>line. \<not> is_marker label line) lines)"

subsection \<open>Plain file names\<close>

text \<open>
  A name is plain when \<^verbatim>\<open>pathlib\<close> reads it as one component that is not \<^verbatim>\<open>..\<close>: it
  is not empty, is not \<^verbatim>\<open>.\<close> and has no \<^verbatim>\<open>/\<close>.
\<close>

definition plain_name :: "string \<Rightarrow> bool" where
  "plain_name f \<longleftrightarrow> path_parts f = [f] \<and> f \<noteq> ''..'' \<and> \<not> prefix ''/'' f"

section \<open>Properties of the normalizer\<close>

subsection \<open>Dictionary operations\<close>

lemma py_get_setitem_same: "py_get (py_setitem d k v) k = v"
  by (simp add: py_get_def py_setitem_def update_conv')

lemma py_get_setitem_other: "k' \<noteq> k \<Longrightarrow> py_get (py_setitem d k v) k' = py_get d k'"
  by (simp add: py_get_def py_setitem_def update_conv')

lemma map_of_setitem: "map_of (py_setitem d k v) = (map_of d)(k \<mapsto> v)"
  by (simp add: py_setitem_def update_conv')

lemma setitem_twice: "py_setitem (py_setitem d k v) k w = py_setitem d k w"
  by (simp add: py_setitem_def)

lemma setitem_triv: "map_of d k = Some v \<Longrightarrow> py_setitem d k v = d"
  by (simp add: py_setitem_def update_triv)

lemma get_list_map_of: "py_get d k = JList c \<Longrightarrow> map_of d k = Some (JList c)"
  by (simp add: py_get_def split: option.splits)

subsection \<open>One lab entry\<close>

lemma in_none_or_empty_get: "in_none_or_empty (py_get lab k) \<longleftrightarrow> missing_or_empty lab k"
  by (auto simp: in_none_or_empty_def py_get_def missing_or_empty_def split: option.splits)

lemma is_int_or_float_number: "is_int_or_float v \<longleftrightarrow> (\<exists>x. number_of v = Some x)"
  by (cases v) simp_all

lemma number_of_get: "number_of (py_get lab k) = numeric_field lab k"
  by (simp add: py_get_def numeric_field_def split: option.splits)

lemma bool_or_number_number_of: "bool_or_number v = Some q \<Longrightarrow> number_of v = Some (Finite q)"
  by (induction v rule: bool_or_number.induct) auto

lemma normalize_lab_flagged:
  assumes "missing_or_empty lab ''flag''" "missing_or_empty lab ''qualifier''"
    and "numeric_field lab ''value'' = Some x" "numeric_field lab ''ref_low'' = Some lo"
    and "numeric_field lab ''ref_high'' = Some hi"
  shows "normalize_lab (JDict lab) = Inr (JDict (py_setitem lab ''flag'' (JStr (range_flag x lo hi))))"
  using assms
  by (simp add: in_none_or_empty_get is_int_or_float_number number_of_get py_lt_def py_gt_def
      range_flag_def)

lemma normalize_lab_kept:
  assumes "\<not> (missing_or_empty lab ''flag'' \<and> missing_or_empty lab ''qualifier''
      \<and> numeric_field lab ''value'' \<noteq> None \<and> numeric_field lab ''ref_low'' \<noteq> None
      \<and> numeric_field lab ''ref_high'' \<noteq> None)"
  shows "normalize_lab (JDict lab) = Inr (JDict lab)"
  using assms
  by (auto simp add: in_none_or_empty_get is_int_or_float_number number_of_get)

lemma normalize_lab_expected: "normalize_lab v = Inr (expected_entry v)"
proof (cases v)
  case (JDict lab)
  show ?thesis
  proof (cases "inferred_flag lab")
    case None
    then have "normalize_lab (JDict lab) = Inr (JDict lab)"
      by (intro normalize_lab_kept) (auto simp: inferred_flag_def split: if_splits option.splits)
    with None JDict show ?thesis by simp
  next
    case (Some f)
    then obtain x lo hi where "missing_or_empty lab ''flag''" "missing_or_empty lab ''qualifier''"
      "numeric_field lab ''value'' = Some x" "numeric_field lab ''ref_low'' = Some lo"
      "numeric_field lab ''ref_high'' = Some hi" "f = range_flag x lo hi"
      by (auto simp: inferred_flag_def split: if_splits option.splits)
    then have "normalize_lab (JDict lab) = Inr (JDict (py_setitem lab ''flag'' (JStr f)))"
      by (simp only: normalize_lab_flagged)
    with JDict Some show ?thesis by (simp del: normalize_lab.simps)
  qed
qed simp_all

lemma normalize_labs_expected: "normalize_labs ls = Inr (map expected_entry ls)"
  by (induction ls) (simp_all add: normalize_lab_expected)

subsection \<open>The whole function\<close>

lemma normalize_eq:
  "normalize_flags_and_context data pdf_names =
     Inr (case py_get data ''labs'' of
            JList ls \<Rightarrow> py_setitem (stamped data pdf_names) ''labs'' (JList (map expected_entry ls))
          | _ \<Rightarrow> stamped data pdf_names)"
proof -
  have 1: "py_setitem (if is_dict (py_get data ''context'') then data
                       else py_setitem data ''context'' (JDict [])) ''context'' v
           = py_setitem data ''context'' v" for v
    by (simp add: setitem_twice)
  have 2: "py_get (stamped data pdf_names) ''labs'' = py_get data ''labs''"
    by (simp add: stamped_def py_get_setitem_other)
  show ?thesis
    unfolding normalize_flags_and_context_def Let_def 1
    unfolding stamped_def[symmetric] 2
    by (simp add: normalize_labs_expected split: json.splits)
qed

lemma expected_entry_idem: "expected_entry (expected_entry v) = expected_entry v"
proof (cases v)
  case (JDict lab)
  show ?thesis
  proof (cases "inferred_flag lab")
    case None
    with JDict show ?thesis by simp
  next
    case (Some f)
    then have "f \<noteq> []"
      by (auto simp: inferred_flag_def range_flag_def split: if_splits option.splits)
    then have "\<not> missing_or_empty (py_setitem lab ''flag'' (JStr f)) ''flag''"
      by (simp add: missing_or_empty_def map_of_setitem)
    then have "inferred_flag (py_setitem lab ''flag'' (JStr f)) = None"
      by (simp add: inferred_flag_def)
    with JDict Some show ?thesis by simp
  qed
qed simp_all

lemma map_expected_entry_idem: "map expected_entry (map expected_entry ls) = map expected_entry ls"
  by (induction ls) (simp_all add: expected_entry_idem)

lemma expected_entry_flagged:
  assumes "missing_or_empty lab ''flag''" "missing_or_empty lab ''qualifier''"
    and "numeric_field lab ''value'' = Some x" "numeric_field lab ''ref_low'' = Some lo"
    and "numeric_field lab ''ref_high'' = Some hi"
  shows "expected_entry (JDict lab) = JDict (py_setitem lab ''flag'' (JStr (range_flag x lo hi)))"
  using assms by (simp add: inferred_flag_def)

lemma expected_entry_kept:
  assumes "\<not> (missing_or_empty lab ''flag'' \<and> missing_or_empty lab ''qualifier''
      \<and> numeric_field lab ''value'' \<noteq> None \<and> numeric_field lab ''ref_low'' \<noteq> None
      \<and> numeric_field lab ''ref_high'' \<noteq> None)"
  shows "expected_entry (JDict lab) = JDict lab"
  using assms by (auto simp add: inferred_flag_def split: option.splits)

lemma expected_entry_not_dict: "\<not> is_dict v \<Longrightarrow> expected_entry v = v"
  by (cases v) simp_all

lemma expected_entry_frame:
  "\<exists>lab'. expected_entry (JDict lab) = JDict lab'
      \<and> (\<forall>k. k \<noteq> ''flag'' \<longrightarrow> map_of lab' k = map_of lab k)"
  by (cases "inferred_flag lab") (simp_all add: map_of_setitem)

lemma stamped_context:
  "map_of (stamped data names) ''context'' =
     Some (JDict (py_setitem (case py_get data ''context'' of JDict c \<Rightarrow> c | _ \<Rightarrow> [])
          ''report_ids'' (JList (map JStr names))))"
  by (simp add: stamped_def map_of_setitem)

lemma stamped_other: "k \<noteq> ''context'' \<Longrightarrow> map_of (stamped data names) k = map_of data k"
  by (simp add: stamped_def map_of_setitem)

lemma stamped_idem_gen:
  assumes "map_of d ''context'' = map_of (stamped data names) ''context''"
  shows "stamped d names = d"
proof -
  let ?c = "py_setitem (case py_get data ''context'' of JDict c \<Rightarrow> c | _ \<Rightarrow> [])
          ''report_ids'' (JList (map JStr names))"
  have m: "map_of d ''context'' = Some (JDict ?c)"
    using assms by (simp add: stamped_context)
  then have g: "py_get d ''context'' = JDict ?c" by (simp add: py_get_def)
  have "py_setitem ?c ''report_ids'' (JList (map JStr names)) = ?c"
    by (simp add: setitem_twice)
  then have "stamped d names = py_setitem d ''context'' (JDict ?c)"
    by (simp add: stamped_def g)
  with m show ?thesis by (simp add: setitem_triv)
qed

lemma normalize_labs_result:
  assumes "py_get data ''labs'' = JList ls"
  shows "\<exists>r. normalize_flags_and_context data pdf_names = Inr r
           \<and> py_get r ''labs'' = JList (map expected_entry ls)"
  using assms by (simp add: normalize_eq py_get_setitem_same)

lemma normalize_cases:
  obtains (labs) ls where "map_of data ''labs'' = Some (JList ls)"
      "normalize_flags_and_context data names
         = Inr (py_setitem (stamped data names) ''labs'' (JList (map expected_entry ls)))"
    | (nolabs) "\<forall>ls. map_of data ''labs'' \<noteq> Some (JList ls)"
      "normalize_flags_and_context data names = Inr (stamped data names)"
proof (cases "\<exists>ls. py_get data ''labs'' = JList ls")
  case True
  then obtain ls where "py_get data ''labs'' = JList ls" by blast
  then show ?thesis
    using labs [of ls] by (simp add: normalize_eq get_list_map_of)
next
  case False
  then have "\<forall>ls. map_of data ''labs'' \<noteq> Some (JList ls)"
    by (auto simp: py_get_def)
  with False show ?thesis
    using nolabs by (simp add: normalize_eq split: json.splits)
qed

subsection \<open>The claims about the normalizer\<close>

text \<open>
  C1. When \<^verbatim>\<open>data.labs\<close> is a list, \<^verbatim>\<open>normalize_flags_and_context\<close> returns, and
  the list it leaves under \<^verbatim>\<open>labs\<close> has the same length. An entry that is a mapping whose
  \<^verbatim>\<open>flag\<close> and \<^verbatim>\<open>qualifier\<close> are missing or empty and whose \<^verbatim>\<open>value\<close>, \<^verbatim>\<open>ref_low\<close>
  and \<^verbatim>\<open>ref_high\<close> are numeric has its \<^verbatim>\<open>flag\<close> set to \<^verbatim>\<open>"L"\<close> when the value is
  below \<^verbatim>\<open>ref_low\<close>, to \<^verbatim>\<open>"H"\<close> when it is above \<^verbatim>\<open>ref_high\<close>, and to \<^verbatim>\<open>"N"\<close>
  otherwise (so on either bound). Every other entry, mapping or not, is the entry
  that was there.
\<close>

theorem labs_flag_inference:
  assumes "py_get data ''labs'' = JList ls"
  shows "\<exists>r ls'. normalize_flags_and_context data pdf_names = Inr r
           \<and> py_get r ''labs'' = JList ls' \<and> length ls' = length ls
           \<and> (\<forall>i<length ls. \<forall>lab. ls ! i = JDict lab \<longrightarrow>
                 (\<forall>x lo hi.
                    missing_or_empty lab ''flag'' \<and> missing_or_empty lab ''qualifier''
                    \<and> numeric_field lab ''value'' = Some x
                    \<and> numeric_field lab ''ref_low'' = Some lo
                    \<and> numeric_field lab ''ref_high'' = Some hi
                    \<longrightarrow> ls' ! i = JDict (py_setitem lab ''flag''
                          (JStr (if float_lt x lo then ''L''
                                 else if float_lt hi x then ''H'' else ''N''))))
               \<and> (\<not> (missing_or_empty lab ''flag'' \<and> missing_or_empty lab ''qualifier''
                      \<and> numeric_field lab ''value'' \<noteq> None
                      \<and> numeric_field lab ''ref_low'' \<noteq> None
                      \<and> numeric_field lab ''ref_high'' \<noteq> None)
                    \<longrightarrow> ls' ! i = JDict lab))
           \<and> (\<forall>i<length ls. \<not> is_dict (ls ! i) \<longrightarrow> ls' ! i = ls ! i)"
proof -
  from normalize_labs_result [OF assms] obtain r
    where r: "normalize_flags_and_context data pdf_names = Inr r"
      and g: "py_get r ''labs'' = JList (map expected_entry ls)"
    by blast
  have "\<forall>i<length ls. \<forall>lab. ls ! i = JDict lab \<longrightarrow>
                 (\<forall>x lo hi.
                    missing_or_empty lab ''flag'' \<and> missing_or_empty lab ''qualifier''
                    \<and> numeric_field lab ''value'' = Some x
                    \<and> numeric_field lab ''ref_low'' = Some lo
                    \<and> numeric_field lab ''ref_high'' = Some hi
                    \<longrightarrow> map expected_entry ls ! i = JDict (py_setitem lab ''flag''
                          (JStr (if float_lt x lo then ''L''
                                 else if float_lt hi x then ''H'' else ''N''))))
               \<and> (\<not> (missing_or_empty lab ''flag'' \<and> missing_or_empty lab ''qualifier''
                      \<and> numeric_field lab ''value'' \<noteq> None
                      \<and> numeric_field lab ''ref_low'' \<noteq> None
                      \<and> numeric_field lab ''ref_high'' \<noteq> None)
                    \<longrightarrow> map expected_entry ls ! i = JDict lab)"
    using expected_entry_flagged expected_entry_kept
    by (simp add: range_flag_def)
  moreover have "\<forall>i<length ls. \<not> is_dict (ls ! i) \<longrightarrow> map expected_entry ls ! i = ls ! i"
    by (simp add: expected_entry_not_dict)
  ultimately show ?thesis using r g by (intro exI[of _ r] exI[of _ "map expected_entry ls"]) simp
qed

theorem labs_flag_inference_witness:
  "py_get [(''labs'', JList
       [JDict [(''value'', JInt 5), (''ref_low'', JInt 4), (''ref_high'', JInt 10)],
        JDict [(''value'', JInt 3), (''ref_low'', JInt 4), (''ref_high'', JInt 10)],
        JDict [(''value'', JInt 12), (''ref_low'', JInt 4), (''ref_high'', JInt 10)],
        JDict [(''value'', JInt 4), (''ref_low'', JInt 4), (''ref_high'', JInt 10)],
        JDict [(''flag'', JStr ''H''), (''value'', JInt 5), (''ref_low'', JInt 4), (''ref_high'', JInt 10)],
        JStr ''n/a''])] ''labs''
   = JList
       [JDict [(''value'', JInt 5), (''ref_low'', JInt 4), (''ref_high'', JInt 10)],
        JDict [(''value'', JInt 3), (''ref_low'', JInt 4), (''ref_high'', JInt 10)],
        JDict [(''value'', JInt 12), (''ref_low'', JInt 4), (''ref_high'', JInt 10)],
        JDict [(''value'', JInt 4), (''ref_low'', JInt 4), (''ref_high'', JInt 10)],
        JDict [(''flag'', JStr ''H''), (''value'', JInt 5), (''ref_low'', JInt 4), (''ref_high'', JInt 10)],
        JStr ''n/a'']
   \<and> (\<exists>r ls'. normalize_flags_and_context [(''labs'', JList
       [JDict [(''value'', JInt 5), (''ref_low'', JInt 4), (''ref_high'', JInt 10)],
        JDict [(''value'', JInt 3), (''ref_low'', JInt 4), (''ref_high'', JInt 10)],
        JDict [(''value'', JInt 12), (''ref_low'', JInt 4), (''ref_high'', JInt 10)],
        JDict [(''value'', JInt 4), (''ref_low'', JInt 4), (''ref_high'', JInt 10)],
        JDict [(''flag'', JStr ''H''), (''value'', JInt 5), (''ref_low'', JInt 4), (''ref_high'', JInt 10)],
        JStr ''n/a''])] [] = Inr r
      \<and> py_get r ''labs'' = JList ls'
      \<and> ls' ! 0 = JDict [(''value'', JInt 5), (''ref_low'', JInt 4), (''ref_high'', JInt 10), (''flag'', JStr ''N'')]
      \<and> ls' ! 1 = JDict [(''value'', JInt 3), (''ref_low'', JInt 4), (''ref_high'', JInt 10), (''flag'', JStr ''L'')]
      \<and> ls' ! 2 = JDict [(''value'', JInt 12), (''ref_low'', JInt 4), (''ref_high'', JInt 10), (''flag'', JStr ''H'')]
      \<and> ls' ! 3 = JDict [(''value'', JInt 4), (''ref_low'', JInt 4), (''ref_high'', JInt 10), (''flag'', JStr ''N'')]
      \<and> ls' ! 4 = JDict [(''flag'', JStr ''H''), (''value'', JInt 5), (''ref_low'', JInt 4), (''ref_high'', JInt 10)]
      \<and> ls' ! 5 = JStr ''n/a'')"
proof -
  let ?e0 = "[(''value'', JInt 5), (''ref_low'', JInt 4), (''ref_high'', JInt 10)]"
  let ?e1 = "[(''value'', JInt 3), (''ref_low'', JInt 4), (''ref_high'', JInt 10)]"
  let ?e2 = "[(''value'', JInt 12), (''ref_low'', JInt 4), (''ref_high'', JInt 10)]"
  let ?e3 = "[(''value'', JInt 4), (''ref_low'', JInt 4), (''ref_high'', JInt 10)]"
  let ?e4 = "[(''flag'', JStr ''H''), (''value'', JInt 5), (''ref_low'', JInt 4), (''ref_high'', JInt 10)]"
  let ?ls = "[JDict ?e0, JDict ?e1, JDict ?e2, JDict ?e3, JDict ?e4, JStr ''n/a'']"
  let ?data = "[(''labs'', JList ?ls)]"
  have h: "py_get ?data ''labs'' = JList ?ls"
    by (simp add: py_get_def)
  from labs_flag_inference [OF h, of "[]"] obtain r ls'
    where r: "normalize_flags_and_context ?data [] = Inr r" "py_get r ''labs'' = JList ls'"
      and dicts: "\<And>i lab. i < length ?ls \<Longrightarrow> ?ls ! i = JDict lab \<Longrightarrow>
                 (\<forall>x lo hi.
                    missing_or_empty lab ''flag'' \<and> missing_or_empty lab ''qualifier''
                    \<and> numeric_field lab ''value'' = Some x
                    \<and> numeric_field lab ''ref_low'' = Some lo
                    \<and> numeric_field lab ''ref_high'' = Some hi
                    \<longrightarrow> ls' ! i = JDict (py_setitem lab ''flag''
                          (JStr (if float_lt x lo then ''L''
                                 else if float_lt hi x then ''H'' else ''N''))))
               \<and> (\<not> (missing_or_empty lab ''flag'' \<and> missing_or_empty lab ''qualifier''
                      \<and> numeric_field lab ''value'' \<noteq> None
                      \<and> numeric_field lab ''ref_low'' \<noteq> None
                      \<and> numeric_field lab ''ref_high'' \<noteq> None)
                    \<longrightarrow> ls' ! i = JDict lab)"
      and others: "\<And>i. i < length ?ls \<Longrightarrow> \<not> is_dict (?ls ! i) \<Longrightarrow> ls' ! i = ?ls ! i"
    by blast
  have "ls' ! 0 = JDict (py_setitem ?e0 ''flag'' (JStr ''N''))"
    using dicts [of 0 ?e0, THEN conjunct1, rule_format, of "Finite 5" "Finite 4" "Finite 10"]
    by (simp add: missing_or_empty_def numeric_field_def)
  moreover have "ls' ! 1 = JDict (py_setitem ?e1 ''flag'' (JStr ''L''))"
    using dicts [of 1 ?e1, THEN conjunct1, rule_format, of "Finite 3" "Finite 4" "Finite 10"]
    by (simp add: missing_or_empty_def numeric_field_def)
  moreover have "ls' ! 2 = JDict (py_setitem ?e2 ''flag'' (JStr ''H''))"
    using dicts [of 2 ?e2, THEN conjunct1, rule_format, of "Finite 12" "Finite 4" "Finite 10"]
    by (simp add: missing_or_empty_def numeric_field_def)
  moreover have "ls' ! 3 = JDict (py_setitem ?e3 ''flag'' (JStr ''N''))"
    using dicts [of 3 ?e3, THEN conjunct1, rule_format, of "Finite 4" "Finite 4" "Finite 10"]
    by (simp add: missing_or_empty_def numeric_field_def)
  moreover have "ls' ! 4 = JDict ?e4"
    using dicts [of 4 ?e4, THEN conjunct2]
    by (simp add: missing_or_empty_def)
  moreover have "ls' ! 5 = JStr ''n/a''"
    using others [of 5] by simp
  ultimately show ?thesis
    using h r by (simp add: py_setitem_def)
qed

text \<open>
  C2. Whatever \<^verbatim>\<open>data\<close> holds under \<^verbatim>\<open>labs\<close>, the result's \<^verbatim>\<open>context\<close> is a mapping
  whose \<^verbatim>\<open>report_ids\<close> is the list of the supplied filenames, in their order and with
  their duplicates. A \<^verbatim>\<open>context\<close> that was a mapping keeps its other keys; one that was
  absent or not a mapping is replaced by a fresh mapping, which then holds
  \<^verbatim>\<open>report_ids\<close> only.
\<close>

theorem report_ids_exact:
  "\<exists>r c. normalize_flags_and_context data pdf_names = Inr r
      \<and> py_get r ''context'' = JDict c
      \<and> py_get c ''report_ids'' = JList (map JStr pdf_names)
      \<and> (\<forall>c0. py_get data ''context'' = JDict c0 \<longrightarrow>
             c = py_setitem c0 ''report_ids'' (JList (map JStr pdf_names)))
      \<and> (\<not> is_dict (py_get data ''context'') \<longrightarrow>
             c = [(''report_ids'', JList (map JStr pdf_names))])"
proof -
  let ?c = "py_setitem (case py_get data ''context'' of JDict c \<Rightarrow> c | _ \<Rightarrow> [])
          ''report_ids'' (JList (map JStr pdf_names))"
  have a: "py_get ?c ''report_ids'' = JList (map JStr pdf_names)"
    by (rule py_get_setitem_same)
  have b: "\<forall>c0. py_get data ''context'' = JDict c0 \<longrightarrow>
             ?c = py_setitem c0 ''report_ids'' (JList (map JStr pdf_names))"
    by simp
  have c: "\<not> is_dict (py_get data ''context'') \<longrightarrow>
             ?c = [(''report_ids'', JList (map JStr pdf_names))]"
    by (cases "py_get data ''context''") (simp_all add: py_setitem_def)
  have s: "py_get (stamped data pdf_names) ''context'' = JDict ?c"
    by (simp add: py_get_def stamped_context)
  show ?thesis
  proof (cases rule: normalize_cases [of data pdf_names])
    case (labs ls)
    have "py_get (py_setitem (stamped data pdf_names) ''labs'' (JList (map expected_entry ls)))
            ''context'' = JDict ?c"
      using s by (simp add: py_get_setitem_other)
    with labs(2) a b c show ?thesis by blast
  next
    case nolabs
    with s a b c show ?thesis by blast
  qed
qed

theorem report_ids_exact_witness:
  "(\<not> is_dict (py_get [(''context'', JStr ''x''), (''labs'', JInt 3)] ''context'')
    \<and> (\<exists>r. normalize_flags_and_context [(''context'', JStr ''x''), (''labs'', JInt 3)]
              [''b.pdf'', ''a.pdf'', ''b.pdf''] = Inr r
          \<and> py_get r ''context''
              = JDict [(''report_ids'', JList [JStr ''b.pdf'', JStr ''a.pdf'', JStr ''b.pdf''])]))
   \<and> (py_get [(''context'', JDict [(''lab'', JStr ''Acme''), (''report_ids'', JInt 0)])] ''context''
        = JDict [(''lab'', JStr ''Acme''), (''report_ids'', JInt 0)]
    \<and> (\<exists>r. normalize_flags_and_context
              [(''context'', JDict [(''lab'', JStr ''Acme''), (''report_ids'', JInt 0)])] [] = Inr r
          \<and> py_get r ''context'' = JDict [(''lab'', JStr ''Acme''), (''report_ids'', JList [])]))"
proof -
  let ?d1 = "[(''context'', JStr ''x''), (''labs'', JInt 3)]"
  let ?n1 = "[''b.pdf'', ''a.pdf'', ''b.pdf'']"
  let ?c2 = "[(''lab'', JStr ''Acme''), (''report_ids'', JInt 0)]"
  let ?d2 = "[(''context'', JDict ?c2)]"
  have h1: "\<not> is_dict (py_get ?d1 ''context'')" by (simp add: py_get_def)
  have h2: "py_get ?d2 ''context'' = JDict ?c2" by (simp add: py_get_def)
  from report_ids_exact [of ?d1 ?n1] obtain r1 c1 where
    r1: "normalize_flags_and_context ?d1 ?n1 = Inr r1" "py_get r1 ''context'' = JDict c1"
    and "\<not> is_dict (py_get ?d1 ''context'') \<longrightarrow> c1 = [(''report_ids'', JList (map JStr ?n1))]"
    by blast
  with h1 have c1: "c1 = [(''report_ids'', JList (map JStr ?n1))]" by simp
  from report_ids_exact [of ?d2 "[]"] obtain r2 c2 where
    r2: "normalize_flags_and_context ?d2 [] = Inr r2" "py_get r2 ''context'' = JDict c2"
    and "\<forall>c0. py_get ?d2 ''context'' = JDict c0 \<longrightarrow>
             c2 = py_setitem c0 ''report_ids'' (JList (map JStr []))"
    by blast
  with h2 have c2: "c2 = py_setitem ?c2 ''report_ids'' (JList (map JStr []))" by simp
  from r1 c1 r2 c2 show ?thesis using h1 h2 by (simp add: py_setitem_def)
qed

text \<open>
  C3. \<^verbatim>\<open>normalize_flags_and_context\<close> is idempotent: it returns, and applied to its
  result with the same filenames it returns that result again.
\<close>

theorem normalize_idempotent:
  "\<exists>r. normalize_flags_and_context data names = Inr r \<and> normalize_flags_and_context r names = Inr r"
proof (cases "\<exists>ls. py_get data ''labs'' = JList ls")
  case True
  then obtain ls where ls: "py_get data ''labs'' = JList ls" by blast
  let ?r = "py_setitem (stamped data names) ''labs'' (JList (map expected_entry ls))"
  have r: "normalize_flags_and_context data names = Inr ?r"
    by (simp add: normalize_eq ls)
  have "map_of ?r ''context'' = map_of (stamped data names) ''context''"
    by (simp add: map_of_setitem)
  then have s: "stamped ?r names = ?r" by (rule stamped_idem_gen)
  have g: "py_get ?r ''labs'' = JList (map expected_entry ls)"
    by (simp add: py_get_setitem_same)
  have "normalize_flags_and_context ?r names = Inr ?r"
    by (simp only: normalize_eq g s json.case map_expected_entry_idem setitem_twice)
  with r show ?thesis by blast
next
  case False
  let ?r = "stamped data names"
  have r: "normalize_flags_and_context data names = Inr ?r"
    using False by (simp add: normalize_eq split: json.splits)
  have s: "stamped ?r names = ?r" by (rule stamped_idem_gen) simp
  have "py_get ?r ''labs'' = py_get data ''labs''"
    by (simp add: stamped_def py_get_setitem_other)
  with False have "normalize_flags_and_context ?r names = Inr ?r"
    by (simp add: normalize_eq s split: json.splits)
  with r show ?thesis by blast
qed

theorem normalize_idempotent_witness:
  "\<exists>r. normalize_flags_and_context
          [(''labs'', JList [JDict [(''value'', JInt 3), (''ref_low'', JInt 4), (''ref_high'', JInt 10)]])]
          [''a.pdf''] = Inr r
     \<and> normalize_flags_and_context r [''a.pdf''] = Inr r"
  by (rule normalize_idempotent)

text \<open>
  C7. \<^verbatim>\<open>normalize_flags_and_context\<close> returns for every decoded JSON object and every
  list of filenames: no comparison of line 164 or 166 meets an operand it cannot
  order. When \<^verbatim>\<open>data.labs\<close> is absent or not a list, the result has under \<^verbatim>\<open>labs\<close>
  what \<^verbatim>\<open>data\<close> had: nothing when the key was absent.
\<close>

theorem normalize_total:
  "\<exists>r. normalize_flags_and_context data pdf_names = Inr r
      \<and> ((\<forall>ls. map_of data ''labs'' \<noteq> Some (JList ls)) \<longrightarrow>
            map_of r ''labs'' = map_of data ''labs'')"
proof (cases rule: normalize_cases [of data pdf_names])
  case (labs ls)
  then show ?thesis by simp
next
  case nolabs
  then show ?thesis by (simp add: stamped_other)
qed

theorem normalize_total_witness:
  "(\<exists>r. normalize_flags_and_context [(''labs'', JStr ''none'')] [''a.pdf''] = Inr r
        \<and> map_of r ''labs'' = Some (JStr ''none''))
   \<and> (\<exists>r. normalize_flags_and_context [(''raw'', JStr ''text'')] [] = Inr r
        \<and> map_of r ''labs'' = None)"
proof -
  have "\<forall>ls. map_of [(''labs'', JStr ''none'')] ''labs'' \<noteq> Some (JList ls)" by simp
  with normalize_total [of "[(''labs'', JStr ''none'')]" "[''a.pdf'']"]
  have a: "\<exists>r. normalize_flags_and_context [(''labs'', JStr ''none'')] [''a.pdf''] = Inr r
        \<and> map_of r ''labs'' = Some (JStr ''none'')" by simp
  have "\<forall>ls. map_of [(''raw'', JStr ''text'')] ''labs'' \<noteq> Some (JList ls)" by simp
  with normalize_total [of "[(''raw'', JStr ''text'')]" "[]"]
  have b: "\<exists>r. normalize_flags_and_context [(''raw'', JStr ''text'')] [] = Inr r
        \<and> map_of r ''labs'' = None" by simp
  from a b show ?thesis by blast
qed

text \<open>
  C9. The frame of \<^verbatim>\<open>normalize_flags_and_context\<close>: every key of \<^verbatim>\<open>data\<close> other than
  \<^verbatim>\<open>context\<close> and \<^verbatim>\<open>labs\<close> keeps its value; a \<^verbatim>\<open>context\<close> that was a mapping keeps
  every key other than \<^verbatim>\<open>report_ids\<close>; a \<^verbatim>\<open>labs\<close> list keeps its length and order,
  each entry that is a mapping keeps every field other than \<^verbatim>\<open>flag\<close>, and each entry
  that is not a mapping is unchanged; a \<^verbatim>\<open>labs\<close> that is not a list is unchanged.
\<close>

theorem normalize_frame:
  "\<exists>r. normalize_flags_and_context data pdf_names = Inr r
    \<and> (\<forall>k. k \<noteq> ''context'' \<and> k \<noteq> ''labs'' \<longrightarrow> map_of r k = map_of data k)
    \<and> (\<forall>c. map_of data ''context'' = Some (JDict c) \<longrightarrow>
          (\<exists>c'. map_of r ''context'' = Some (JDict c')
             \<and> (\<forall>k. k \<noteq> ''report_ids'' \<longrightarrow> map_of c' k = map_of c k)))
    \<and> (\<forall>ls. map_of data ''labs'' = Some (JList ls) \<longrightarrow>
          (\<exists>ls'. map_of r ''labs'' = Some (JList ls') \<and> length ls' = length ls
             \<and> (\<forall>i<length ls.
                   (\<forall>lab. ls ! i = JDict lab \<longrightarrow>
                      (\<exists>lab'. ls' ! i = JDict lab'
                         \<and> (\<forall>k. k \<noteq> ''flag'' \<longrightarrow> map_of lab' k = map_of lab k)))
                 \<and> (\<not> is_dict (ls ! i) \<longrightarrow> ls' ! i = ls ! i))))
    \<and> ((\<forall>ls. map_of data ''labs'' \<noteq> Some (JList ls)) \<longrightarrow>
          map_of r ''labs'' = map_of data ''labs'')"
proof -
  have ctx: "\<forall>c. map_of data ''context'' = Some (JDict c) \<longrightarrow>
          (\<exists>c'. map_of (stamped data pdf_names) ''context'' = Some (JDict c')
             \<and> (\<forall>k. k \<noteq> ''report_ids'' \<longrightarrow> map_of c' k = map_of c k))"
    by (simp add: stamped_context py_get_def map_of_setitem)
  show ?thesis
  proof (cases rule: normalize_cases [of data pdf_names])
    case (labs ls)
    let ?r = "py_setitem (stamped data pdf_names) ''labs'' (JList (map expected_entry ls))"
    have 1: "\<forall>k. k \<noteq> ''context'' \<and> k \<noteq> ''labs'' \<longrightarrow> map_of ?r k = map_of data k"
      by (simp add: map_of_setitem stamped_other)
    have 2: "\<forall>c. map_of data ''context'' = Some (JDict c) \<longrightarrow>
          (\<exists>c'. map_of ?r ''context'' = Some (JDict c')
             \<and> (\<forall>k. k \<noteq> ''report_ids'' \<longrightarrow> map_of c' k = map_of c k))"
      using ctx by (simp add: map_of_setitem)
    have 3: "map_of ?r ''labs'' = Some (JList (map expected_entry ls))"
      by (simp add: map_of_setitem)
    have 4: "\<forall>i<length ls.
                   (\<forall>lab. ls ! i = JDict lab \<longrightarrow>
                      (\<exists>lab'. map expected_entry ls ! i = JDict lab'
                         \<and> (\<forall>k. k \<noteq> ''flag'' \<longrightarrow> map_of lab' k = map_of lab k)))
                 \<and> (\<not> is_dict (ls ! i) \<longrightarrow> map expected_entry ls ! i = ls ! i)"
      using expected_entry_frame by (simp add: expected_entry_not_dict)
    have 5: "\<forall>ls0. map_of data ''labs'' = Some (JList ls0) \<longrightarrow>
          (\<exists>ls'. map_of ?r ''labs'' = Some (JList ls') \<and> length ls' = length ls0
             \<and> (\<forall>i<length ls0.
                   (\<forall>lab. ls0 ! i = JDict lab \<longrightarrow>
                      (\<exists>lab'. ls' ! i = JDict lab'
                         \<and> (\<forall>k. k \<noteq> ''flag'' \<longrightarrow> map_of lab' k = map_of lab k)))
                 \<and> (\<not> is_dict (ls0 ! i) \<longrightarrow> ls' ! i = ls0 ! i)))"
    proof (intro allI impI)
      fix ls0 assume "map_of data ''labs'' = Some (JList ls0)"
      with labs(1) have "ls0 = ls" by simp
      with 3 4 show "\<exists>ls'. map_of ?r ''labs'' = Some (JList ls') \<and> length ls' = length ls0
             \<and> (\<forall>i<length ls0.
                   (\<forall>lab. ls0 ! i = JDict lab \<longrightarrow>
                      (\<exists>lab'. ls' ! i = JDict lab'
                         \<and> (\<forall>k. k \<noteq> ''flag'' \<longrightarrow> map_of lab' k = map_of lab k)))
                 \<and> (\<not> is_dict (ls0 ! i) \<longrightarrow> ls' ! i = ls0 ! i))"
        by (intro exI[of _ "map expected_entry ls"]) simp
    qed
    have 6: "(\<forall>ls. map_of data ''labs'' \<noteq> Some (JList ls)) \<longrightarrow>
          map_of ?r ''labs'' = map_of data ''labs''"
      using labs(1) by simp
    from labs(2) 1 2 5 6 show ?thesis by (intro exI[of _ ?r] conjI)
  next
    case nolabs
    let ?r = "stamped data pdf_names"
    have 1: "\<forall>k. k \<noteq> ''context'' \<and> k \<noteq> ''labs'' \<longrightarrow> map_of ?r k = map_of data k"
      by (simp add: stamped_other)
    have 6: "map_of ?r ''labs'' = map_of data ''labs''"
      by (simp add: stamped_other)
    from nolabs 1 ctx 6 show ?thesis by (intro exI[of _ ?r] conjI) simp_all
  qed
qed

theorem normalize_frame_witness:
  "\<exists>r. normalize_flags_and_context
          [(''patient'', JStr ''p''),
           (''context'', JDict [(''lab'', JStr ''Acme''), (''report_ids'', JList [])]),
           (''labs'', JList [JDict [(''name'', JStr ''Hb''), (''value'', JInt 5),
                                   (''ref_low'', JInt 4), (''ref_high'', JInt 10)],
                            JInt 7])]
          [''a.pdf''] = Inr r
     \<and> map_of r ''patient'' = Some (JStr ''p'')
     \<and> (\<exists>c'. map_of r ''context'' = Some (JDict c') \<and> map_of c' ''lab'' = Some (JStr ''Acme''))
     \<and> (\<exists>ls'. map_of r ''labs'' = Some (JList ls') \<and> length ls' = 2
           \<and> (\<exists>lab'. ls' ! 0 = JDict lab' \<and> map_of lab' ''name'' = Some (JStr ''Hb'')
                 \<and> map_of lab' ''value'' = Some (JInt 5))
           \<and> ls' ! 1 = JInt 7)"
proof -
  let ?c = "[(''lab'', JStr ''Acme''), (''report_ids'', JList [])]"
  let ?e = "[(''name'', JStr ''Hb''), (''value'', JInt 5), (''ref_low'', JInt 4), (''ref_high'', JInt 10)]"
  let ?ls = "[JDict ?e, JInt 7]"
  let ?d = "[(''patient'', JStr ''p''), (''context'', JDict ?c), (''labs'', JList ?ls)]"
  from normalize_frame [of ?d "[''a.pdf'']"] obtain r where
    r: "normalize_flags_and_context ?d [''a.pdf''] = Inr r"
    and keys: "\<And>k. k \<noteq> ''context'' \<and> k \<noteq> ''labs'' \<Longrightarrow> map_of r k = map_of ?d k"
    and ctx: "\<And>c. map_of ?d ''context'' = Some (JDict c) \<Longrightarrow>
          (\<exists>c'. map_of r ''context'' = Some (JDict c')
             \<and> (\<forall>k. k \<noteq> ''report_ids'' \<longrightarrow> map_of c' k = map_of c k))"
    and labs: "\<And>ls. map_of ?d ''labs'' = Some (JList ls) \<Longrightarrow>
          (\<exists>ls'. map_of r ''labs'' = Some (JList ls') \<and> length ls' = length ls
             \<and> (\<forall>i<length ls.
                   (\<forall>lab. ls ! i = JDict lab \<longrightarrow>
                      (\<exists>lab'. ls' ! i = JDict lab'
                         \<and> (\<forall>k. k \<noteq> ''flag'' \<longrightarrow> map_of lab' k = map_of lab k)))
                 \<and> (\<not> is_dict (ls ! i) \<longrightarrow> ls' ! i = ls ! i)))"
    by blast
  have 1: "map_of r ''patient'' = Some (JStr ''p'')"
    using keys [of "''patient''"] by simp
  from ctx [of ?c] obtain c' where "map_of r ''context'' = Some (JDict c')"
    and "\<forall>k. k \<noteq> ''report_ids'' \<longrightarrow> map_of c' k = map_of ?c k"
    by auto
  then have 2: "\<exists>c'. map_of r ''context'' = Some (JDict c') \<and> map_of c' ''lab'' = Some (JStr ''Acme'')"
    by (intro exI[of _ c']) simp
  from labs [of ?ls] obtain ls' where l: "map_of r ''labs'' = Some (JList ls')" "length ls' = 2"
    and ent: "\<And>i. i < length ?ls \<Longrightarrow>
                   (\<forall>lab. ?ls ! i = JDict lab \<longrightarrow>
                      (\<exists>lab'. ls' ! i = JDict lab'
                         \<and> (\<forall>k. k \<noteq> ''flag'' \<longrightarrow> map_of lab' k = map_of lab k)))
                 \<and> (\<not> is_dict (?ls ! i) \<longrightarrow> ls' ! i = ?ls ! i)"
    by auto
  from ent [of 0] obtain lab' where "ls' ! 0 = JDict lab'"
    and "\<forall>k. k \<noteq> ''flag'' \<longrightarrow> map_of lab' k = map_of ?e k"
    by auto
  then have 3: "\<exists>lab'. ls' ! 0 = JDict lab' \<and> map_of lab' ''name'' = Some (JStr ''Hb'')
                 \<and> map_of lab' ''value'' = Some (JInt 5)"
    by (intro exI[of _ lab']) simp
  have 4: "ls' ! 1 = JInt 7"
    using ent [of 1] by simp
  from r 1 2 l 3 4 show ?thesis by blast
qed

text \<open>
  C10. JSON booleans pass the numeric test. An entry with missing or empty \<^verbatim>\<open>flag\<close>
  and \<^verbatim>\<open>qualifier\<close> whose \<^verbatim>\<open>value\<close>, \<^verbatim>\<open>ref_low\<close> and \<^verbatim>\<open>ref_high\<close> are each a boolean
  or a finite number is flagged by comparing the numbers they stand for, \<^verbatim>\<open>true\<close>
  as 1 and \<^verbatim>\<open>false\<close> as 0.
\<close>

theorem boolean_operands_flagged:
  assumes "py_get data ''labs'' = JList ls" and "i < length ls" and "ls ! i = JDict lab"
    and "missing_or_empty lab ''flag''" and "missing_or_empty lab ''qualifier''"
    and "bool_or_number (py_get lab ''value'') = Some x"
    and "bool_or_number (py_get lab ''ref_low'') = Some lo"
    and "bool_or_number (py_get lab ''ref_high'') = Some hi"
  shows "\<exists>r ls'. normalize_flags_and_context data pdf_names = Inr r
           \<and> py_get r ''labs'' = JList ls'
           \<and> ls' ! i = JDict (py_setitem lab ''flag''
                 (JStr (if x < lo then ''L'' else if hi < x then ''H'' else ''N'')))"
proof -
  from normalize_labs_result [OF assms(1)] obtain r
    where r: "normalize_flags_and_context data pdf_names = Inr r"
      and g: "py_get r ''labs'' = JList (map expected_entry ls)"
    by blast
  have "numeric_field lab ''value'' = Some (Finite x)"
    "numeric_field lab ''ref_low'' = Some (Finite lo)"
    "numeric_field lab ''ref_high'' = Some (Finite hi)"
    using assms(6-8) by (simp_all add: number_of_get [symmetric] bool_or_number_number_of)
  with assms(4,5) have "expected_entry (JDict lab)
      = JDict (py_setitem lab ''flag'' (JStr (range_flag (Finite x) (Finite lo) (Finite hi))))"
    by (rule expected_entry_flagged)
  with assms(2,3) have "map expected_entry ls ! i = JDict (py_setitem lab ''flag''
                 (JStr (if x < lo then ''L'' else if hi < x then ''H'' else ''N'')))"
    by (simp add: range_flag_def)
  with r g show ?thesis by blast
qed

theorem boolean_operands_flagged_witness:
  "\<exists>r ls'. normalize_flags_and_context
          [(''labs'', JList [JDict [(''value'', JBool True), (''ref_low'', JInt 2), (''ref_high'', JInt 5)],
                            JDict [(''value'', JFloat (Finite (1/2))), (''ref_low'', JBool False),
                                   (''ref_high'', JBool True)]])] [] = Inr r
     \<and> py_get r ''labs'' = JList ls'
     \<and> ls' ! 0 = JDict [(''value'', JBool True), (''ref_low'', JInt 2), (''ref_high'', JInt 5),
                          (''flag'', JStr ''L'')]"
proof -
  let ?e = "[(''value'', JBool True), (''ref_low'', JInt 2), (''ref_high'', JInt 5)]"
  let ?ls = "[JDict ?e, JDict [(''value'', JFloat (Finite (1/2))), (''ref_low'', JBool False),
                                   (''ref_high'', JBool True)]]"
  have "\<exists>r ls'. normalize_flags_and_context [(''labs'', JList ?ls)] [] = Inr r
           \<and> py_get r ''labs'' = JList ls'
           \<and> ls' ! 0 = JDict (py_setitem ?e ''flag''
                 (JStr (if (1::rat) < 2 then ''L'' else if (5::rat) < 1 then ''H'' else ''N'')))"
    by (rule boolean_operands_flagged [of _ ?ls 0 ?e 1 2 5])
       (simp_all add: py_get_def missing_or_empty_def)
  then show ?thesis by (simp add: py_setitem_def)
qed

section \<open>Properties of the prompt loader\<close>

subsection \<open>Lines, markers and slices\<close>

lemma split_from_no_linebreak:
  "\<forall>c\<in>set cur. \<not> is_linebreak c \<Longrightarrow> line \<in> set (split_from cur s)
     \<Longrightarrow> \<forall>c\<in>set line. \<not> is_linebreak c"
proof (induction cur s arbitrary: line rule: split_from.induct)
  case (1 cur)
  then show ?case by (simp split: if_splits)
next
  case (2 cur c)
  then show ?case by (auto split: if_splits)
next
  case (3 cur c d s)
  show ?case
  proof (cases "is_linebreak c")
    case True
    show ?thesis
    proof (cases "c = 0x0D \<and> d = 0x0A")
      case cr: True
      with True "3.prems" have "line = cur \<or> line \<in> set (split_from [] s)" by simp
      then show ?thesis
      proof
        assume "line = cur" with "3.prems" show ?thesis by simp
      next
        assume "line \<in> set (split_from [] s)"
        with "3.IH"(1) [OF True cr, of line] show ?thesis by simp
      qed
    next
      case nocr: False
      with True "3.prems" have "line = cur \<or> line \<in> set (split_from [] (d # s))" by auto
      then show ?thesis
      proof
        assume "line = cur" with "3.prems" show ?thesis by simp
      next
        assume "line \<in> set (split_from [] (d # s))"
        with "3.IH"(2) [OF True nocr, of line] show ?thesis by simp
      qed
    qed
  next
    case False
    with "3.prems" have "line \<in> set (split_from (cur @ [c]) (d # s))" by simp
    moreover from False "3.prems" have "\<forall>c\<in>set (cur @ [c]). \<not> is_linebreak c" by simp
    ultimately show ?thesis using "3.IH"(3) [OF False] by blast
  qed
qed

lemma newline_is_linebreak: "is_linebreak 0x0A"
  by (simp add: is_linebreak_def)

lemma rstrip_chars_none: "\<forall>c\<in>set s. c \<notin> set chars \<Longrightarrow> rstrip_chars chars s = s"
proof (cases "rev s")
  case Nil
  then show ?thesis by (simp add: rstrip_chars_def)
next
  case (Cons c cs)
  assume a: "\<forall>c\<in>set s. c \<notin> set chars"
  from Cons have "c \<in> set s" by (metis list.set_intros(1) set_rev)
  with a have "c \<notin> set chars" by blast
  with Cons have "dropWhile (\<lambda>c. c \<in> set chars) (rev s) = rev s" by simp
  then show ?thesis by (simp add: rstrip_chars_def)
qed

lemma no_linebreak_rstrip:
  assumes "\<forall>c\<in>set line. \<not> is_linebreak c"
  shows "rstrip_chars [0x0A] line = line"
proof (rule rstrip_chars_none, rule ballI)
  fix c assume "c \<in> set line"
  with assms have "\<not> is_linebreak c" by blast
  with newline_is_linebreak have "c \<noteq> 0x0A" by metis
  then show "c \<notin> set [0x0A]" by simp
qed

lemma lines_rstrip: "map (rstrip_chars [0x0A]) (splitlines text) = splitlines text"
proof -
  have "rstrip_chars [0x0A] line = line" if "line \<in> set (splitlines text)" for line
  proof -
    have "\<forall>c\<in>set []. \<not> is_linebreak c" by simp
    moreover from that have "line \<in> set (split_from [] text)" by (simp add: splitlines_def)
    ultimately have "\<forall>c\<in>set line. \<not> is_linebreak c"
      by (rule split_from_no_linebreak)
    then show ?thesis by (rule no_linebreak_rstrip)
  qed
  then show ?thesis by (simp add: map_idI)
qed

lemma find_index_from_eq:
  "find_index_from i lines label =
     (if has_marker label lines then int (i + marker_pos label lines) else - 1)"
  by (induction lines arbitrary: i) (simp_all add: has_marker_def marker_pos_def is_marker_def)

lemma find_index_eq:
  "find_index lines label = (if has_marker label lines then int (marker_pos label lines) else - 1)"
  by (simp add: find_index_def find_index_from_eq)

lemma marker_pos_less: "has_marker label lines \<Longrightarrow> marker_pos label lines < length lines"
  by (induction lines) (auto simp: has_marker_def marker_pos_def)

lemma marker_pos_iff:
  "has_marker label lines \<and> marker_pos label lines = i \<longleftrightarrow>
     i < length lines \<and> is_marker label (lines ! i) \<and> (\<forall>j<i. \<not> is_marker label (lines ! j))"
proof (induction lines arbitrary: i)
  case Nil
  then show ?case by (simp add: has_marker_def marker_pos_def)
next
  case (Cons l ls)
  show ?case
  proof (cases "is_marker label l")
    case True
    then show ?thesis
      by (cases i) (auto simp: has_marker_def marker_pos_def)
  next
    case False
    show ?thesis
    proof (cases i)
      case 0
      with False show ?thesis by (simp add: has_marker_def marker_pos_def)
    next
      case (Suc k)
      have "(\<forall>j<Suc k. \<not> is_marker label ((l # ls) ! j)) \<longleftrightarrow> (\<forall>j<k. \<not> is_marker label (ls ! j))"
        using False by (auto simp: less_Suc_eq_0_disj)
      with Cons.IH [of k] False Suc show ?thesis
        by (simp add: has_marker_def marker_pos_def)
    qed
  qed
qed

lemma has_marker_iff: "has_marker label lines \<longleftrightarrow> (\<exists>line\<in>set lines. strip line = label)"
  by (simp add: has_marker_def list_ex_iff is_marker_def)

lemma py_slice_between:
  "s < u \<Longrightarrow> u \<le> length xs \<Longrightarrow> py_slice xs (int s + 1) (int u) = take (u - Suc s) (drop (Suc s) xs)"
  by (simp add: py_slice_def Let_def min_def nat_diff_distrib' nat_add_distrib) 

lemma py_slice_from_after:
  "u < length xs \<Longrightarrow> py_slice_from xs (int u + 1) = drop (Suc u) xs"
  by (simp add: py_slice_from_def Let_def min_def nat_add_distrib)

lemma read_prompts_text:
  assumes "fs path = Some text"
  shows "read_prompts_from_markdown fs path =
     (let lines = splitlines text;
          s = marker_pos (lit ''SYSTEM'') lines;
          u = marker_pos (lit ''USER'') lines;
          system_block = strip (join [0x0A] (take (u - Suc s) (drop (Suc s) lines)));
          user_block = strip (join [0x0A] (drop (Suc u) lines))
      in if \<not> has_marker (lit ''SYSTEM'') lines \<or> \<not> has_marker (lit ''USER'') lines \<or> u \<le> s
         then Inl (RuntimeError ''Could not locate SYSTEM and USER blocks in ai-prompt.md'')
         else if system_block = [] \<or> user_block = []
         then Inl (RuntimeError ''SYSTEM or USER block appears empty in ai-prompt.md'')
         else Inr (system_block, user_block))"
proof -
  let ?lines = "splitlines text"
  let ?s = "marker_pos (lit ''SYSTEM'') ?lines"
  let ?u = "marker_pos (lit ''USER'') ?lines"
  show ?thesis
  proof (cases "has_marker (lit ''SYSTEM'') ?lines \<and> has_marker (lit ''USER'') ?lines \<and> ?s < ?u")
    case True
    then have u: "?u < length ?lines" by (simp add: marker_pos_less)
    with True have 1: "py_slice ?lines (int ?s + 1) (int ?u) = take (?u - Suc ?s) (drop (Suc ?s) ?lines)"
      by (intro py_slice_between) simp_all
    from u have 2: "py_slice_from ?lines (int ?u + 1) = drop (Suc ?u) ?lines"
      by (rule py_slice_from_after)
    from True show ?thesis
      unfolding read_prompts_from_markdown_def read_text_def
      by (simp add: assms lines_rstrip find_index_eq Let_def 1 2)
  next
    case False
    then show ?thesis
      unfolding read_prompts_from_markdown_def read_text_def
      by (auto simp add: assms lines_rstrip find_index_eq Let_def)
  qed
qed

subsection \<open>The model's text functions and the notions stated on their own\<close>

lemma join_line_feed: "sep = [0x0A] \<Longrightarrow> join sep ls = joined ls"
  by (induction sep ls rule: join.induct) (simp_all add: joined_def)

lemma join_joined: "join [0x0A] ls = joined ls"
  by (simp add: join_line_feed)

lemma strip_trimmed: "strip s = trimmed s"
proof (cases "dropWhile is_space s = []")
  case True
  then have all: "\<forall>c\<in>set s. is_space c" by (simp add: dropWhile_eq_Nil_conv)
  then have "length (takeWhile is_space s) = length s"
    by (simp add: takeWhile_eq_all_conv [THEN iffD2])
  then have "trimmed s = []" by (simp add: trimmed_def Let_def)
  moreover have "strip s = []" unfolding strip_def True by simp
  ultimately show ?thesis by simp
next
  case False
  let ?a = "takeWhile is_space s" and ?r = "dropWhile is_space s"
  have s: "s = ?a @ ?r" by simp
  from False have "\<not> is_space (hd ?r)" by (rule hd_dropWhile)
  with False have ex: "\<exists>x\<in>set (rev ?r). \<not> is_space x"
    by (metis hd_in_set set_rev)
  have "rev s = rev ?r @ rev ?a" by (metis rev_append s)
  then have "takeWhile is_space (rev s) = takeWhile is_space (rev ?r @ rev ?a)" by simp
  also have "\<dots> = takeWhile is_space (rev ?r)"
    using ex by (metis takeWhile_append1 takeWhile_dropWhile_id takeWhile_eq_all_conv append_Nil2 takeWhile_append)
  finally have m: "takeWhile is_space (rev s) = takeWhile is_space (rev ?r)" .
  let ?m = "length (takeWhile is_space (rev ?r))"
  have "rev ?r = takeWhile is_space (rev ?r) @ dropWhile is_space (rev ?r)" by simp
  then have "?r = rev (dropWhile is_space (rev ?r)) @ rev (takeWhile is_space (rev ?r))"
    by (metis rev_append rev_rev_ident)
  then have "take (length ?r - ?m) ?r = rev (dropWhile is_space (rev ?r))"
    by (metis append_eq_conv_conj length_rev length_append add_diff_cancel_right')
  moreover have "take (length s - length ?a - ?m) (drop (length ?a) s) = take (length ?r - ?m) ?r"
    by (simp add: dropWhile_eq_drop)
  ultimately show ?thesis by (simp add: strip_def trimmed_def Let_def m)
qed

lemma text_lines_Nil: "text_lines [] = []"
  by (simp add: text_lines.simps)

lemma text_lines_no_break:
  assumes "\<forall>c\<in>set cur. \<not> is_linebreak c" and "cur \<noteq> []"
  shows "text_lines cur = [cur]"
proof -
  from assms(1) have tw: "takeWhile (\<lambda>c. \<not> is_linebreak c) cur = cur"
    and dw: "dropWhile (\<lambda>c. \<not> is_linebreak c) cur = []"
    by (simp_all add: takeWhile_eq_all_conv [THEN iffD2])
  show ?thesis
    by (simp only: text_lines.simps [of cur] tw dw assms(2) if_False list.case)
qed

lemma text_lines_break:
  assumes "\<forall>c\<in>set cur. \<not> is_linebreak c" and "is_linebreak c"
  shows "text_lines (cur @ c # r)
      = cur # text_lines (if c = 0x0D \<and> take 1 r = [0x0A] then drop 1 r else r)"
proof -
  from assms have "takeWhile (\<lambda>c. \<not> is_linebreak c) (cur @ c # r) = cur"
    and "dropWhile (\<lambda>c. \<not> is_linebreak c) (cur @ c # r) = c # r"
    by (simp_all add: takeWhile_append2 dropWhile_append2)
  then show ?thesis by (simp add: text_lines.simps [of "cur @ c # r"])
qed

lemma split_from_text_lines:
  "\<forall>c\<in>set cur. \<not> is_linebreak c \<Longrightarrow> split_from cur s = text_lines (cur @ s)"
proof (induction cur s rule: split_from.induct)
  case (1 cur)
  then show ?case by (simp add: text_lines_Nil text_lines_no_break)
next
  case (2 cur c)
  show ?case
  proof (cases "is_linebreak c")
    case True
    with "2.prems" show ?thesis by (simp add: text_lines_break text_lines_Nil)
  next
    case False
    with "2.prems" have "text_lines (cur @ [c]) = [cur @ [c]]"
      by (intro text_lines_no_break) simp_all
    with False show ?thesis by simp
  qed
next
  case (3 cur c d s)
  show ?case
  proof (cases "is_linebreak c")
    case True
    have e: "text_lines (cur @ c # d # s)
        = cur # text_lines (if c = 0x0D \<and> take 1 (d # s) = [0x0A] then drop 1 (d # s) else d # s)"
      using "3.prems" True by (rule text_lines_break)
    show ?thesis
    proof (cases "c = 0x0D \<and> d = 0x0A")
      case cr: True
      with "3.IH"(1) [OF True cr] True e show ?thesis by simp
    next
      case nocr: False
      with "3.IH"(2) [OF True nocr] True e show ?thesis by auto
    qed
  next
    case False
    with "3.prems" have "split_from (cur @ [c]) (d # s) = text_lines ((cur @ [c]) @ d # s)"
      by (intro "3.IH"(3)) simp_all
    with False show ?thesis by simp
  qed
qed

lemma splitlines_text_lines: "splitlines text = text_lines text"
  using split_from_text_lines [of "[]" "text"] by (simp add: splitlines_def)

lemma has_marker_missing: "has_marker label lines \<longleftrightarrow> \<not> marker_missing label lines"
  by (auto simp add: has_marker_iff marker_missing_def strip_trimmed)

lemma marker_pos_first: "marker_pos label lines = first_marker label lines"
  by (simp add: marker_pos_def first_marker_def is_marker_def strip_trimmed)

lemmas text_eval = lit_def text_lines.simps is_linebreak_def trimmed_def joined_def is_space_def
  marker_missing_def first_marker_def system_text_def user_text_def loader_rejects_def
  exact_system_pos_def exact_user_pos_def stated_result_def stated_rejected_def Let_def

lemma read_prompts_outcome:
  assumes "fs path = Some text"
  shows "read_prompts_from_markdown fs path =
     (if marker_missing (lit ''SYSTEM'') (text_lines text)
         \<or> marker_missing (lit ''USER'') (text_lines text)
         \<or> first_marker (lit ''USER'') (text_lines text)
              \<le> first_marker (lit ''SYSTEM'') (text_lines text)
      then Inl (RuntimeError ''Could not locate SYSTEM and USER blocks in ai-prompt.md'')
      else if system_text text = [] \<or> user_text text = []
      then Inl (RuntimeError ''SYSTEM or USER block appears empty in ai-prompt.md'')
      else Inr (system_text text, user_text text))"
  unfolding read_prompts_text [of fs path "text", OF assms] system_text_def user_text_def
  by (simp add: Let_def has_marker_missing marker_pos_first strip_trimmed join_joined
      splitlines_text_lines)

lemmas loader_eval = read_prompts_from_markdown_def read_text_def lit_def splitlines_def
  is_linebreak_def rstrip_chars_def find_index_def strip_def is_space_def py_slice_def
  py_slice_from_def

subsection \<open>The claims about the prompt loader\<close>

text \<open>
  C4, as stated, with the marker of the specification (a line exactly equal to
  \<^verbatim>\<open>SYSTEM\<close>, followed later by a line exactly equal to \<^verbatim>\<open>USER\<close>): the loader fails
  exactly when a marker is missing, the USER marker does not come after the SYSTEM
  marker or a block is empty, and returns the trimmed text between the markers and
  after \<^verbatim>\<open>USER\<close> otherwise. The code differs three times. In the first file no line
  equals \<^verbatim>\<open>SYSTEM\<close> or \<^verbatim>\<open>USER\<close>, and the loader returns two blocks. In the second a
  \<^verbatim>\<open>USER\<close> line follows the \<^verbatim>\<open>SYSTEM\<close> line with text after each, and the loader fails,
  because it takes the first \<^verbatim>\<open>USER\<close> line of the file. In the third the text between
  the markers holds a form feed, and the block returned holds a line feed in its
  place: the block is made of the lines, joined again.
\<close>

theorem stated_contract_counterexample:
  "stated_rejected (lit '' SYSTEM '' @ [0x0A] @ lit ''A'' @ [0x0A] @ lit ''USER  '' @ [0x0A] @ lit ''B'')
   \<and> read_prompts_from_markdown
        [''ai-prompt.md'' \<mapsto> lit '' SYSTEM '' @ [0x0A] @ lit ''A'' @ [0x0A] @ lit ''USER  ''
           @ [0x0A] @ lit ''B''] ''ai-prompt.md''
       = Inr (lit ''A'', lit ''B'')
   \<and> \<not> stated_rejected (lit ''USER'' @ [0x0A] @ lit ''SYSTEM'' @ [0x0A] @ lit ''A'' @ [0x0A]
           @ lit ''USER'' @ [0x0A] @ lit ''B'')
   \<and> stated_result (lit ''USER'' @ [0x0A] @ lit ''SYSTEM'' @ [0x0A] @ lit ''A'' @ [0x0A]
           @ lit ''USER'' @ [0x0A] @ lit ''B'') = (lit ''A'', lit ''B'')
   \<and> read_prompts_from_markdown
        [''ai-prompt.md'' \<mapsto> lit ''USER'' @ [0x0A] @ lit ''SYSTEM'' @ [0x0A] @ lit ''A'' @ [0x0A]
           @ lit ''USER'' @ [0x0A] @ lit ''B''] ''ai-prompt.md''
       = Inl (RuntimeError ''Could not locate SYSTEM and USER blocks in ai-prompt.md'')
   \<and> read_prompts_from_markdown
        [''ai-prompt.md'' \<mapsto> lit ''SYSTEM'' @ [0x0A] @ lit ''A'' @ [0x0C] @ lit ''B'' @ [0x0A]
           @ lit ''USER'' @ [0x0A] @ lit ''C''] ''ai-prompt.md''
       = Inr (lit ''A'' @ [0x0A] @ lit ''B'', lit ''C'')"
proof -
  have 1: "stated_rejected (lit '' SYSTEM '' @ [0x0A] @ lit ''A'' @ [0x0A] @ lit ''USER  ''
      @ [0x0A] @ lit ''B'')"
    by (simp add: text_eval)
  have 2: "read_prompts_from_markdown
        [''ai-prompt.md'' \<mapsto> lit '' SYSTEM '' @ [0x0A] @ lit ''A'' @ [0x0A] @ lit ''USER  ''
           @ [0x0A] @ lit ''B''] ''ai-prompt.md''
       = Inr (lit ''A'', lit ''B'')"
    by (simp add: loader_eval)
  have 3: "\<not> stated_rejected (lit ''USER'' @ [0x0A] @ lit ''SYSTEM'' @ [0x0A] @ lit ''A'' @ [0x0A]
           @ lit ''USER'' @ [0x0A] @ lit ''B'')"
    by (simp add: text_eval)
  have 4: "stated_result (lit ''USER'' @ [0x0A] @ lit ''SYSTEM'' @ [0x0A] @ lit ''A'' @ [0x0A]
           @ lit ''USER'' @ [0x0A] @ lit ''B'') = (lit ''A'', lit ''B'')"
    by (simp add: text_eval)
  have 5: "read_prompts_from_markdown
        [''ai-prompt.md'' \<mapsto> lit ''USER'' @ [0x0A] @ lit ''SYSTEM'' @ [0x0A] @ lit ''A'' @ [0x0A]
           @ lit ''USER'' @ [0x0A] @ lit ''B''] ''ai-prompt.md''
       = Inl (RuntimeError ''Could not locate SYSTEM and USER blocks in ai-prompt.md'')"
    by (simp add: loader_eval)
  have 6: "read_prompts_from_markdown
        [''ai-prompt.md'' \<mapsto> lit ''SYSTEM'' @ [0x0A] @ lit ''A'' @ [0x0C] @ lit ''B'' @ [0x0A]
           @ lit ''USER'' @ [0x0A] @ lit ''C''] ''ai-prompt.md''
       = Inr (lit ''A'' @ [0x0A] @ lit ''B'', lit ''C'')"
    by (simp add: loader_eval)
  from 1 2 3 4 5 6 show ?thesis by blast
qed

text \<open>
  C4, amended. The SYSTEM marker and the USER marker are the first lines whose
  content, with leading and trailing whitespace removed, is \<^verbatim>\<open>SYSTEM\<close> and \<^verbatim>\<open>USER\<close>. For
  a prompt file that can be read, the loader fails exactly when the SYSTEM marker is
  missing, the USER marker is missing, the USER marker does not come after the SYSTEM
  marker, or one of the two blocks is empty after trimming; otherwise it returns the
  pair of the lines between the markers and the lines after the USER marker, each
  joined by line feeds and trimmed. For the content \<^verbatim>\<open>SYSTEM\<close>, \<^verbatim>\<open>A\<close>, \<^verbatim>\<open>B\<close>, \<^verbatim>\<open>USER\<close>,
  \<^verbatim>\<open>C\<close>, \<^verbatim>\<open>D\<close> on successive lines the result is \<^verbatim>\<open>("A\nB", "C\nD")\<close>. The witness
  derives it, and runs a file with whitespace around the markers and the blocks, a
  CR LF and a form feed, a file with a block of whitespace only, a file with the
  markers in the wrong order and a file without \<^verbatim>\<open>USER\<close>.
\<close>

theorem prompt_loader_failures:
  assumes "fs path = Some text"
  shows "((\<exists>e. read_prompts_from_markdown fs path = Inl e) \<longleftrightarrow> loader_rejects text)
       \<and> (\<not> loader_rejects text \<longrightarrow>
            read_prompts_from_markdown fs path = Inr (system_text text, user_text text))"
  by (auto simp add: read_prompts_outcome [of fs path "text", OF assms] loader_rejects_def Let_def)

theorem prompt_loader_failures_witness:
  "read_prompts_from_markdown
     [''ai-prompt.md'' \<mapsto> lit ''SYSTEM'' @ [0x0A] @ lit ''A'' @ [0x0A] @ lit ''B'' @ [0x0A]
        @ lit ''USER'' @ [0x0A] @ lit ''C'' @ [0x0A] @ lit ''D''] ''ai-prompt.md''
     = Inr (lit ''A'' @ [0x0A] @ lit ''B'', lit ''C'' @ [0x0A] @ lit ''D'')
   \<and> read_prompts_from_markdown
     [''ai-prompt.md'' \<mapsto> lit '' SYSTEM'' @ [0x09, 0x0A, 0x0A] @ lit ''  A '' @ [0x0C]
        @ lit '' B  '' @ [0x0D, 0x0A, 0x0A] @ lit ''USER '' @ [0x0A] @ lit '' C'' @ [0x0A, 0x0A]]
     ''ai-prompt.md''
     = Inr (lit ''A '' @ [0x0A] @ lit '' B'', lit ''C'')
   \<and> (\<exists>e. read_prompts_from_markdown
          [''ai-prompt.md'' \<mapsto> lit ''SYSTEM'' @ [0x0A, 0x20, 0x09, 0x0A] @ lit ''USER''
             @ [0x0A] @ lit ''B''] ''ai-prompt.md'' = Inl e)
   \<and> (\<exists>e. read_prompts_from_markdown
          [''ai-prompt.md'' \<mapsto> lit ''USER'' @ [0x0A] @ lit ''A'' @ [0x0A] @ lit ''SYSTEM''
             @ [0x0A] @ lit ''B''] ''ai-prompt.md'' = Inl e)
   \<and> (\<exists>e. read_prompts_from_markdown
          [''ai-prompt.md'' \<mapsto> lit ''SYSTEM'' @ [0x0A] @ lit ''A''] ''ai-prompt.md'' = Inl e)"
proof -
  let ?good = "lit ''SYSTEM'' @ [0x0A] @ lit ''A'' @ [0x0A] @ lit ''B'' @ [0x0A]
        @ lit ''USER'' @ [0x0A] @ lit ''C'' @ [0x0A] @ lit ''D''"
  let ?ragged = "lit '' SYSTEM'' @ [0x09, 0x0A, 0x0A] @ lit ''  A '' @ [0x0C]
        @ lit '' B  '' @ [0x0D, 0x0A, 0x0A] @ lit ''USER '' @ [0x0A] @ lit '' C'' @ [0x0A, 0x0A]"
  let ?blank = "lit ''SYSTEM'' @ [0x0A, 0x20, 0x09, 0x0A] @ lit ''USER'' @ [0x0A] @ lit ''B''"
  let ?swapped = "lit ''USER'' @ [0x0A] @ lit ''A'' @ [0x0A] @ lit ''SYSTEM'' @ [0x0A] @ lit ''B''"
  let ?nouser = "lit ''SYSTEM'' @ [0x0A] @ lit ''A''"
  have g: "\<not> loader_rejects ?good"
    and gs: "system_text ?good = lit ''A'' @ [0x0A] @ lit ''B''"
    and gu: "user_text ?good = lit ''C'' @ [0x0A] @ lit ''D''"
    by (simp_all add: text_eval)
  have r: "\<not> loader_rejects ?ragged"
    and rs: "system_text ?ragged = lit ''A '' @ [0x0A] @ lit '' B''"
    and ru: "user_text ?ragged = lit ''C''"
    by (simp_all add: text_eval)
  have b: "loader_rejects ?blank" by (simp add: text_eval)
  have s: "loader_rejects ?swapped" by (simp add: text_eval)
  have n: "loader_rejects ?nouser" by (simp add: text_eval)
  have 1: "read_prompts_from_markdown [''ai-prompt.md'' \<mapsto> ?good] ''ai-prompt.md''
      = Inr (lit ''A'' @ [0x0A] @ lit ''B'', lit ''C'' @ [0x0A] @ lit ''D'')"
    using prompt_loader_failures [of "[''ai-prompt.md'' \<mapsto> ?good]" "''ai-prompt.md''" ?good] g gs gu
    by simp
  have 2: "read_prompts_from_markdown [''ai-prompt.md'' \<mapsto> ?ragged] ''ai-prompt.md''
      = Inr (lit ''A '' @ [0x0A] @ lit '' B'', lit ''C'')"
    using prompt_loader_failures [of "[''ai-prompt.md'' \<mapsto> ?ragged]" "''ai-prompt.md''" ?ragged]
      r rs ru
    by simp
  have 3: "\<exists>e. read_prompts_from_markdown [''ai-prompt.md'' \<mapsto> ?blank] ''ai-prompt.md'' = Inl e"
    using prompt_loader_failures [of "[''ai-prompt.md'' \<mapsto> ?blank]" "''ai-prompt.md''" ?blank] b
    by simp
  have 4: "\<exists>e. read_prompts_from_markdown [''ai-prompt.md'' \<mapsto> ?swapped] ''ai-prompt.md'' = Inl e"
    using prompt_loader_failures [of "[''ai-prompt.md'' \<mapsto> ?swapped]" "''ai-prompt.md''" ?swapped] s
    by simp
  have 5: "\<exists>e. read_prompts_from_markdown [''ai-prompt.md'' \<mapsto> ?nouser] ''ai-prompt.md'' = Inl e"
    using prompt_loader_failures [of "[''ai-prompt.md'' \<mapsto> ?nouser]" "''ai-prompt.md''" ?nouser] n
    by simp
  from 1 2 3 4 5 show ?thesis by blast
qed

text \<open>
  C5, as stated: a line whose content differs from the literal marker string is not
  treated as a section delimiter. The code compares \<^verbatim>\<open>ln.strip()\<close> with the label
  (line 26), so a marker surrounded by whitespace is a delimiter: in the file below
  no line equals \<^verbatim>\<open>SYSTEM\<close> or \<^verbatim>\<open>USER\<close>, yet \<^verbatim>\<open>find_index\<close> finds both and the
  loader returns the two blocks.
\<close>

theorem exact_marker_counterexample:
  "lit ''SYSTEM'' \<notin> set (splitlines (lit '' SYSTEM '' @ [0x0A] @ lit ''A'' @ [0x0A]
        @ lit ''USER  '' @ [0x0A] @ lit ''B''))
   \<and> lit ''USER'' \<notin> set (splitlines (lit '' SYSTEM '' @ [0x0A] @ lit ''A'' @ [0x0A]
        @ lit ''USER  '' @ [0x0A] @ lit ''B''))
   \<and> find_index (splitlines (lit '' SYSTEM '' @ [0x0A] @ lit ''A'' @ [0x0A]
        @ lit ''USER  '' @ [0x0A] @ lit ''B'')) (lit ''SYSTEM'') = 0
   \<and> find_index (splitlines (lit '' SYSTEM '' @ [0x0A] @ lit ''A'' @ [0x0A]
        @ lit ''USER  '' @ [0x0A] @ lit ''B'')) (lit ''USER'') = 2
   \<and> read_prompts_from_markdown
        [''ai-prompt.md'' \<mapsto> lit '' SYSTEM '' @ [0x0A] @ lit ''A'' @ [0x0A]
           @ lit ''USER  '' @ [0x0A] @ lit ''B''] ''ai-prompt.md''
       = Inr (lit ''A'', lit ''B'')"
  by (simp add: read_prompts_from_markdown_def read_text_def lit_def splitlines_def
      is_linebreak_def rstrip_chars_def find_index_def strip_def is_space_def py_slice_def
      py_slice_from_def)

text \<open>
  C5, amended: \<^verbatim>\<open>find_index\<close> recognizes a section delimiter on the first line whose
  content, with leading and trailing whitespace removed, equals the label, and on no
  other line; it returns -1 exactly when no line has the label as its trimmed
  content.
\<close>

theorem trimmed_marker_recognition:
  "(find_index lines label = int i \<longleftrightarrow>
      i < length lines \<and> strip (lines ! i) = label \<and> (\<forall>j<i. strip (lines ! j) \<noteq> label))
   \<and> (find_index lines label = - 1 \<longleftrightarrow> (\<forall>line\<in>set lines. strip line \<noteq> label))"
proof -
  have "find_index lines label = int i \<longleftrightarrow> has_marker label lines \<and> marker_pos label lines = i"
    by (simp add: find_index_eq)
  also have "\<dots> \<longleftrightarrow> i < length lines \<and> is_marker label (lines ! i)
      \<and> (\<forall>j<i. \<not> is_marker label (lines ! j))"
    by (rule marker_pos_iff)
  finally have 1: "find_index lines label = int i \<longleftrightarrow>
      i < length lines \<and> strip (lines ! i) = label \<and> (\<forall>j<i. strip (lines ! j) \<noteq> label)"
    by (simp add: is_marker_def)
  have "find_index lines label = - 1 \<longleftrightarrow> \<not> has_marker label lines"
    by (simp add: find_index_eq)
  then have 2: "find_index lines label = - 1 \<longleftrightarrow> (\<forall>line\<in>set lines. strip line \<noteq> label)"
    by (simp add: has_marker_iff)
  from 1 2 show ?thesis by blast
qed

theorem trimmed_marker_recognition_witness:
  "find_index [lit ''A'', lit '' SYSTEM '', lit ''SYSTEM''] (lit ''SYSTEM'') = int 1
   \<and> find_index [lit ''A'', lit '' SYSTEMS ''] (lit ''SYSTEM'') = - 1"
proof -
  note ev = lit_def strip_def is_space_def
  have "(1::nat) < length [lit ''A'', lit '' SYSTEM '', lit ''SYSTEM'']
      \<and> strip ([lit ''A'', lit '' SYSTEM '', lit ''SYSTEM''] ! 1) = lit ''SYSTEM''
      \<and> (\<forall>j<1. strip ([lit ''A'', lit '' SYSTEM '', lit ''SYSTEM''] ! j) \<noteq> lit ''SYSTEM'')"
    by (simp add: ev)
  then have a: "find_index [lit ''A'', lit '' SYSTEM '', lit ''SYSTEM''] (lit ''SYSTEM'') = int 1"
    using trimmed_marker_recognition [of "[lit ''A'', lit '' SYSTEM '', lit ''SYSTEM'']" "lit ''SYSTEM''" 1]
    by blast
  have "\<forall>line\<in>set [lit ''A'', lit '' SYSTEMS '']. strip line \<noteq> lit ''SYSTEM''"
    by (simp add: ev)
  then have b: "find_index [lit ''A'', lit '' SYSTEMS ''] (lit ''SYSTEM'') = - 1"
    using trimmed_marker_recognition [of "[lit ''A'', lit '' SYSTEMS '']" "lit ''SYSTEM''" 0]
    by blast
  from a b show ?thesis by blast
qed

section \<open>Properties of the entry points\<close>

subsection \<open>The command line entry point\<close>

text \<open>
  With the credential set and no prompt file, \<^verbatim>\<open>main\<close> ends in the exception of
  \<^verbatim>\<open>read_text\<close> and never reaches the rest.
\<close>

lemma main_missing_prompt:
  assumes "openai_api_key env = Some key" and "key \<noteq> []"
    and "text_files env (arg_prompt args) = None"
  shows "main env args rest = Uncaught FileNotFoundError"
  using assms by (simp add: main_def read_prompts_from_markdown_def read_text_def)

subsection \<open>Uploads with plain names\<close>

text \<open>
  When every uploaded file has a plain name, the identifier is a plain name other
  than \<^verbatim>\<open>tmp_uploads\<close>, \<^verbatim>\<open>BASE_DIR\<close> exists and nothing exists yet at or below the
  scratch directory of the request, the scratch directory does not exist after the
  request, whatever \<^verbatim>\<open>_process_paths\<close> returns or raises.
\<close>

lemma joinpath_plain: "plain_name f \<Longrightarrow> joinpath p f = p @ [f]"
  by (simp add: joinpath_def plain_name_def)

lemma joinpath_tmp_uploads: "joinpath p ''tmp_uploads'' = p @ [''tmp_uploads'']"
  by (simp add: joinpath_def path_parts_def)

lemma walk_plain: "''..'' \<notin> set p \<Longrightarrow> walk d cur p = Inr q \<Longrightarrow> q = cur @ p"
proof (induction p arbitrary: cur)
  case Nil
  then show ?case by simp
next
  case (Cons c cs)
  from Cons.prems(1) have c: "c \<noteq> ''..''" and cs: "''..'' \<notin> set cs" by auto
  from Cons.prems(2) c have "walk d (cur @ [c]) cs = Inr q"
    by (simp split: if_splits)
  with Cons.IH [of "cur @ [c]"] cs show ?case by simp
qed

lemma walk_dirs:
  "''..'' \<notin> set p \<Longrightarrow> (\<forall>n<length p. is_dir d (cur @ take n p)) \<Longrightarrow> walk d cur p = Inr (cur @ p)"
proof (induction p arbitrary: cur)
  case Nil
  then show ?case by simp
next
  case (Cons c cs)
  from Cons.prems(2) have "is_dir d (cur @ take 0 (c # cs))" by blast
  then have 0: "is_dir d cur" by simp
  have "\<forall>n<length cs. is_dir d ((cur @ [c]) @ take n cs)"
  proof (intro allI impI)
    fix n assume "n < length cs"
    then have "Suc n < length (c # cs)" by simp
    with Cons.prems(2) have "is_dir d (cur @ take (Suc n) (c # cs))" by blast
    then show "is_dir d ((cur @ [c]) @ take n cs)" by simp
  qed
  moreover from Cons.prems(1) have c: "c \<noteq> ''..''" and cs: "''..'' \<notin> set cs" by auto
  ultimately have "walk d (cur @ [c]) cs = Inr ((cur @ [c]) @ cs)"
    using Cons.IH [of "cur @ [c]"] by simp
  with 0 c show ?case by simp
qed

lemma not_exists_after_rmtree:
  assumes "''..'' \<notin> set p" and "p \<noteq> []"
    and "p \<notin> set (dirs d)" and "p \<notin> set (regular d)"
  shows "\<not> path_exists d p"
proof (cases "locate d p")
  case (Inl e)
  then show ?thesis by (simp add: path_exists_def)
next
  case (Inr q)
  with assms(1) have "q = p" using walk_plain [of p d "[]" q] by (simp add: locate_def)
  with Inr assms show ?thesis by (simp add: path_exists_def is_dir_def)
qed

lemma path_str_snoc: "path_str (p @ [c]) = (if p = [] then [] else path_str p) @ CHR ''/'' # c"
  by (simp add: path_str_def)

lemma mkdir_parents_fresh:
  assumes "\<forall>n. take n p \<notin> set (regular d)"
  shows "\<exists>d'. mkdir_parents d p = Inr d' \<and> regular d' = regular d
     \<and> set (dirs d') = set (dirs d) \<union> (\<lambda>n. take n p) ` {1..length p}"
proof -
  have "\<not> list_ex (\<lambda>q. q \<in> set (regular d)) (map (\<lambda>n. take n p) [1..<length p])"
    using assms by (simp add: list_ex_iff)
  moreover from assms have "take (length p) p \<notin> set (regular d)" by blast
  ultimately show ?thesis
    by (auto simp add: mkdir_parents_def)
qed

lemma locate_dirs:
  assumes "''..'' \<notin> set p" and "\<forall>n<length p. is_dir d (take n p)"
  shows "locate d p = Inr p"
  using walk_dirs [of p d "[]"] assms by (simp add: locate_def)

lemma open_wb_plain:
  assumes "''..'' \<notin> set tmp" and "\<forall>n<length tmp. is_dir d (take n tmp)"
    and "is_dir d tmp" and "tmp \<notin> set (regular d)"
    and "\<forall>x\<in>set (dirs d). \<not> strict_prefix tmp x"
    and "f \<noteq> ''..''"
  shows "open_wb d (tmp @ [f]) = Inr (d\<lparr>regular := List.insert (tmp @ [f]) (regular d)\<rparr>)"
proof -
  have "locate d tmp = Inr tmp" using assms(1,2) by (rule locate_dirs)
  moreover have "strict_prefix tmp (tmp @ [f])" by (simp add: strict_prefix_def)
  with assms(5) have "\<not> is_dir d (tmp @ [f])"
    by (auto simp: is_dir_def)
  ultimately show ?thesis
    using assms(3,4,6) by (simp add: open_wb_def)
qed

lemma save_each_plain:
  assumes "''..'' \<notin> set tmp" and "\<forall>n<length tmp. is_dir d (take n tmp)"
    and "is_dir d tmp" and "tmp \<notin> set (regular d)"
    and "\<forall>x\<in>set (dirs d). \<not> strict_prefix tmp x"
    and "\<forall>uf\<in>set ufs. plain_name (filename uf)"
  shows "\<exists>d'. save_each tmp d saved ufs = (Inr (saved @ map (\<lambda>uf. tmp @ [filename uf]) ufs), d')
           \<and> dirs d' = dirs d \<and> tmp \<notin> set (regular d')"
  using assms
proof (induction ufs arbitrary: d saved)
  case Nil
  then show ?case by simp
next
  case (Cons uf ufs)
  let ?f = "filename uf"
  let ?d1 = "d\<lparr>regular := List.insert (tmp @ [?f]) (regular d)\<rparr>"
  from Cons.prems(6) have pl: "plain_name ?f" by simp
  then have j: "joinpath tmp ?f = tmp @ [?f]" by (rule joinpath_plain)
  from pl have "?f \<noteq> ''..''" by (simp add: plain_name_def)
  with Cons.prems have o: "open_wb d (tmp @ [?f]) = Inr ?d1"
    by (intro open_wb_plain) simp_all
  have "\<exists>d'. save_each tmp ?d1 (saved @ [tmp @ [?f]]) ufs
            = (Inr ((saved @ [tmp @ [?f]]) @ map (\<lambda>uf. tmp @ [filename uf]) ufs), d')
           \<and> dirs d' = dirs ?d1 \<and> tmp \<notin> set (regular d')"
    using Cons.prems by (intro Cons.IH) (simp_all add: is_dir_def)
  then show ?case by (simp add: j o Let_def)
qed

lemma cleanup_paths_removes:
  assumes "''..'' \<notin> set tmp" and "tmp \<noteq> []" and "last tmp \<noteq> ''tmp_uploads''"
    and "\<forall>n<length tmp. is_dir d (take n tmp)" and "is_dir d tmp" and "tmp \<notin> set (regular d)"
    and "prefix (path_str (joinpath base ''tmp_uploads'')) (path_str tmp)"
  shows "\<not> path_exists (cleanup_paths base d ((tmp @ [f]) # ps)) tmp"
proof -
  have l: "locate d tmp = Inr tmp" using assms(1,4) by (rule locate_dirs)
  with assms(5) have e: "path_exists d tmp" by (simp add: path_exists_def)
  from assms(1,2) have "last tmp \<noteq> ''..''" by (metis last_in_set)
  with l assms(2,5,6) have r: "snd (rmtree d tmp)
      = d\<lparr>dirs := filter (\<lambda>x. \<not> prefix tmp x) (dirs d),
           regular := filter (\<lambda>x. \<not> prefix tmp x) (regular d)\<rparr>"
    by (simp add: rmtree_def)
  have "cleanup_paths base d ((tmp @ [f]) # ps) = snd (rmtree d tmp)"
    using assms(2,3,7) e by (simp add: cleanup_paths_def parent_def name_def)
  with r assms(1,2) show ?thesis
    by (intro not_exists_after_rmtree) simp_all
qed

lemma ingest_plain_uploads_cleaned:
  assumes "files \<noteq> []" and "\<forall>uf\<in>set files. plain_name (filename uf)"
    and "plain_name (fresh_uuid env)" and "fresh_uuid env \<noteq> ''tmp_uploads''"
    and "''..'' \<notin> set (base_dir env)"
    and "\<forall>n\<le>length (base_dir env). is_dir d (take n (base_dir env))"
    and "\<forall>x\<in>set (dirs d) \<union> set (regular d).
           \<not> prefix (base_dir env @ [''tmp_uploads'', fresh_uuid env]) x"
    and "\<forall>n. take n (base_dir env @ [''tmp_uploads'', fresh_uuid env]) \<notin> set (regular d)"
  shows "\<not> path_exists (snd (ingest_labs env process_paths d files model prompt use_sample))
           (base_dir env @ [''tmp_uploads'', fresh_uuid env])"
proof -
  let ?base = "base_dir env"
  let ?u = "fresh_uuid env"
  let ?tmp = "?base @ [''tmp_uploads'', ?u]"
  from assms(3) have u: "?u \<noteq> ''..''" by (simp add: plain_name_def)
  with assms(5) have nodd: "''..'' \<notin> set ?tmp" by simp
  have tmp: "joinpath (joinpath ?base ''tmp_uploads'') ?u = ?tmp"
    using assms(3) by (simp add: joinpath_tmp_uploads joinpath_plain)
  from assms(7) have fresh: "?tmp \<notin> set (dirs d)" "?tmp \<notin> set (regular d)" by auto
  have before: "\<not> path_exists d ?tmp"
    using nodd fresh by (intro not_exists_after_rmtree) simp_all
  show ?thesis
  proof (cases "api_key_set env \<and> path_exists d (if prefix ''/'' prompt then path_parts prompt
                           else resolve (joinpath ?base prompt))")
    case False
    then have "snd (ingest_labs env process_paths d files model prompt use_sample) = d"
      by (auto simp add: ingest_labs_def Let_def)
    with before show ?thesis by simp
  next
    case True
    from mkdir_parents_fresh [OF assms(8)] obtain d1 where
      mk: "mkdir_parents d ?tmp = Inr d1" and reg1: "regular d1 = regular d"
      and dirs1: "set (dirs d1) = set (dirs d) \<union> (\<lambda>n. take n ?tmp) ` {1..length ?tmp}"
      by blast
    have anc: "\<forall>n<length ?tmp. is_dir d1 (take n ?tmp)"
    proof (intro allI impI)
      fix n assume "n < length ?tmp"
      show "is_dir d1 (take n ?tmp)"
      proof (cases n)
        case 0
        then show ?thesis by (simp add: is_dir_def)
      next
        case (Suc k)
        with \<open>n < length ?tmp\<close> have "n \<in> {1..length ?tmp}" by simp
        with dirs1 show ?thesis unfolding is_dir_def by blast
      qed
    qed
    have self: "is_dir d1 ?tmp"
    proof -
      have "take (length ?tmp) ?tmp \<in> (\<lambda>n. take n ?tmp) ` {1..length ?tmp}"
        by (intro imageI) simp
      with dirs1 show ?thesis unfolding is_dir_def by simp
    qed
    from fresh reg1 have noreg: "?tmp \<notin> set (regular d1)" by simp
    have below: "\<forall>x\<in>set (dirs d1). \<not> strict_prefix ?tmp x"
    proof
      fix x assume "x \<in> set (dirs d1)"
      with dirs1 consider "x \<in> set (dirs d)" | n where "x = take n ?tmp" by blast
      then show "\<not> strict_prefix ?tmp x"
      proof cases
        case 1
        with assms(7) have "\<not> prefix ?tmp x" by blast
        then show ?thesis by (simp add: strict_prefix_def)
      next
        case 2
        then have "prefix x ?tmp" by (metis take_is_prefix)
        then show ?thesis by (auto simp: strict_prefix_def)
      qed
    qed
    from save_each_plain [OF nodd anc self noreg below assms(2), of "[]"] obtain d2 where
      sv: "save_each ?tmp d1 [] files = (Inr (map (\<lambda>uf. ?tmp @ [filename uf]) files), d2)"
      and dirs2: "dirs d2 = dirs d1" and noreg2: "?tmp \<notin> set (regular d2)"
      by auto
    from assms(1) obtain uf ufs where fs: "files = uf # ufs" by (cases files) auto
    have saved: "save_uploads_to_temp ?base ?u d files
        = (Inr ((?tmp @ [filename uf]) # map (\<lambda>uf. ?tmp @ [filename uf]) ufs), d2)"
      using sv by (simp add: save_uploads_to_temp_def tmp mk fs)
    have anc2: "\<forall>n<length ?tmp. is_dir d2 (take n ?tmp)" and self2: "is_dir d2 ?tmp"
      using anc self dirs2 by (simp_all add: is_dir_def)
    have pre: "prefix (path_str (joinpath ?base ''tmp_uploads'')) (path_str ?tmp)"
      by (simp add: joinpath_tmp_uploads path_str_def)
    have "\<not> path_exists (cleanup_paths ?base d2
        ((?tmp @ [filename uf]) # map (\<lambda>uf. ?tmp @ [filename uf]) ufs)) ?tmp"
      using nodd anc2 self2 noreg2 pre assms(4) by (intro cleanup_paths_removes) simp_all
    moreover have "snd (ingest_labs env process_paths d files model prompt use_sample)
        = cleanup_paths ?base d2 ((?tmp @ [filename uf]) # map (\<lambda>uf. ?tmp @ [filename uf]) ufs)"
      using True assms(1) by (simp add: ingest_labs_def Let_def saved)
    ultimately show ?thesis by simp
  qed
qed

subsection \<open>Evaluation on a concrete disk\<close>

lemmas path_eval = joinpath_def path_parts_def path_str_def parent_def name_def is_dir_def
  locate_def path_exists_def resolve_def mkdir_parents_def open_wb_def rmtree_def
  save_uploads_to_temp_def cleanup_paths_def ingest_labs_def upt_rec Let_def

lemma resolve_prompt_example:
  "resolve (joinpath [''srv'', ''app''] ''nope/../ai-prompt.md'') = [''srv'', ''app'', ''ai-prompt.md'']"
  by (simp add: path_eval)

lemma mkdir_parents_over_file:
  "mkdir_parents \<lparr>dirs = [[''srv'']], regular = [[''srv'', ''f'']]\<rparr> [''srv'', ''f'', ''u'']
     = Inl NotADirectoryError
   \<and> mkdir_parents \<lparr>dirs = [[''srv'']], regular = [[''srv'', ''f'']]\<rparr> [''srv'', ''f'']
     = Inl FileExistsError"
  by (simp add: path_eval)

lemma ingest_plain_filename_cleaned:
  "\<not> path_exists
        (snd (ingest_labs
          \<lparr>base_dir = [''srv'', ''app''], api_key_set = True, fresh_uuid = ''6f1c'',
           sample_present = True, sample_paths = Inr []\<rparr>
          process_paths
          \<lparr>dirs = [[''srv''], [''srv'', ''app''], [''srv'', ''app'', ''input_files'']],
           regular = [[''srv'', ''app'', ''ai-prompt.md'']]\<rparr>
          [\<lparr>filename = ''a.pdf'', content = [37, 80, 68, 70]\<rparr>,
           \<lparr>filename = ''b.png'', content = []\<rparr>]
          ''gpt-4.1'' ''ai-prompt.md'' False))
        [''srv'', ''app'', ''tmp_uploads'', ''6f1c'']"
  by (simp add: path_eval)

subsection \<open>The claims about the entry points\<close>

text \<open>
  C6. The claim: with the credential set and a \<^verbatim>\<open>--prompt\<close> file that does not exist,
  the command line tool reports the error and exits with code 2 before any network
  call, as it does for a missing credential (line 186) and a missing input file
  (line 198). The code has no such check for the prompt: \<^verbatim>\<open>read_text\<close> raises
  \<^verbatim>\<open>FileNotFoundError\<close> at line 21, \<^verbatim>\<open>main\<close> does not catch it, and the process ends
  with a traceback and exit status 1. The rest of \<^verbatim>\<open>main\<close> is not reached, so no
  network call is made.
\<close>

theorem cli_missing_prompt_exit_status:
  "main \<lparr>openai_api_key = Some ''sk-test'', text_files = Map.empty\<rparr>
        \<lparr>arg_files = [''report.pdf''], arg_output = ''labs.json'', arg_model = ''gpt-4.1'',
         arg_prompt = ''missing.md'', arg_input_dir = ''input_files'', arg_max_files = 0\<rparr> rest
     = Uncaught FileNotFoundError
   \<and> exit_status (main \<lparr>openai_api_key = Some ''sk-test'', text_files = Map.empty\<rparr>
        \<lparr>arg_files = [''report.pdf''], arg_output = ''labs.json'', arg_model = ''gpt-4.1'',
         arg_prompt = ''missing.md'', arg_input_dir = ''input_files'', arg_max_files = 0\<rparr> rest) = 1"
  by (simp add: main_def read_prompts_from_markdown_def read_text_def exit_status_def)

text \<open>
  C8. The claim: after an ingest request with uploads, successful or failing, the
  scratch directory of the request no longer exists, and the cleanup deletes only
  below the scratch root. The cleanup of line 185 runs on \<^verbatim>\<open>saved_paths\<close> and removes
  the parent of its first path. For an upload named \<^verbatim>\<open>scans/a.pdf\<close> line 47 raises,
  \<^verbatim>\<open>saved_paths\<close> is still empty in the \<^verbatim>\<open>finally\<close> block, and the scratch directory
  stays. For an upload named \<^verbatim>\<open>../../input_files/a.pdf\<close> the parent of the saved path
  is the sample directory, whose path string starts with that of the scratch root:
  the sample directory is deleted and the scratch directory stays.
\<close>

theorem ingest_scratch_directory_survives:
  "fst (ingest_labs
          \<lparr>base_dir = [''srv'', ''app''], api_key_set = True, fresh_uuid = ''6f1c'',
           sample_present = True, sample_paths = Inr []\<rparr>
          process_paths
          \<lparr>dirs = [[''srv''], [''srv'', ''app''], [''srv'', ''app'', ''input_files'']],
           regular = [[''srv'', ''app'', ''ai-prompt.md'']]\<rparr>
          [\<lparr>filename = ''scans/a.pdf'', content = [37, 80, 68, 70]\<rparr>]
          ''gpt-4.1'' ''ai-prompt.md'' False)
     = Inl FileNotFoundError
   \<and> path_exists
        (snd (ingest_labs
          \<lparr>base_dir = [''srv'', ''app''], api_key_set = True, fresh_uuid = ''6f1c'',
           sample_present = True, sample_paths = Inr []\<rparr>
          process_paths
          \<lparr>dirs = [[''srv''], [''srv'', ''app''], [''srv'', ''app'', ''input_files'']],
           regular = [[''srv'', ''app'', ''ai-prompt.md'']]\<rparr>
          [\<lparr>filename = ''scans/a.pdf'', content = [37, 80, 68, 70]\<rparr>]
          ''gpt-4.1'' ''ai-prompt.md'' False))
        [''srv'', ''app'', ''tmp_uploads'', ''6f1c'']
   \<and> path_exists
        (snd (ingest_labs
          \<lparr>base_dir = [''srv'', ''app''], api_key_set = True, fresh_uuid = ''6f1c'',
           sample_present = True, sample_paths = Inr []\<rparr>
          process_paths
          \<lparr>dirs = [[''srv''], [''srv'', ''app''], [''srv'', ''app'', ''input_files'']],
           regular = [[''srv'', ''app'', ''ai-prompt.md'']]\<rparr>
          [\<lparr>filename = ''../../input_files/a.pdf'', content = [37, 80, 68, 70]\<rparr>]
          ''gpt-4.1'' ''ai-prompt.md'' False))
        [''srv'', ''app'', ''tmp_uploads'', ''6f1c'']
   \<and> \<not> path_exists
        (snd (ingest_labs
          \<lparr>base_dir = [''srv'', ''app''], api_key_set = True, fresh_uuid = ''6f1c'',
           sample_present = True, sample_paths = Inr []\<rparr>
          process_paths
          \<lparr>dirs = [[''srv''], [''srv'', ''app''], [''srv'', ''app'', ''input_files'']],
           regular = [[''srv'', ''app'', ''ai-prompt.md'']]\<rparr>
          [\<lparr>filename = ''../../input_files/a.pdf'', content = [37, 80, 68, 70]\<rparr>]
          ''gpt-4.1'' ''ai-prompt.md'' False))
        [''srv'', ''app'', ''input_files'']
   \<and> \<not> prefix [''srv'', ''app'', ''tmp_uploads''] [''srv'', ''app'', ''input_files'']"
  by (simp add: path_eval)

end
